theory Spec2Isabelle
  imports Complex_Main "HOL-Library.Sublist"
begin

section \<open>Strings of the scraping engine\<close>

text \<open>
  The engine of \<^verbatim>\<open>src/lib/scrapeEngine.ts\<close> works on JavaScript strings, sequences of
  UTF-16 code units whose \<^verbatim>\<open>length\<close> counts code units. The model uses \<^typ>\<open>string\<close>, whose
  characters are read as the code units U+0000 to U+00FF: every length of the source is a
  \<^const>\<open>length\<close> here. On that range the white space of \<^verbatim>\<open>\s\<close> and of \<^verbatim>\<open>trim()\<close>
  (ECMAScript WhiteSpace and LineTerminator) is TAB, LF, VT, FF, CR, SP and NBSP, and the
  line terminators of \<^verbatim>\<open>.\<close> and of a multiline \<^verbatim>\<open>^\<close> are LF and CR.
\<close>

definition isWhiteSpace :: "char \<Rightarrow> bool" where
  "isWhiteSpace c = (of_char c \<in> set [9, 10, 11, 12, 13, 32, 160 :: nat])"

definition isLineTerminator :: "char \<Rightarrow> bool" where
  "isLineTerminator c = (of_char c \<in> set [10, 13 :: nat])"

definition isNewline :: "char \<Rightarrow> bool" where
  "isNewline c = (c = CHR 0x0A)"

text \<open>\<^verbatim>\<open>s.trim()\<close>: white space removed at both ends.\<close>

definition trim :: "string \<Rightarrow> string" where
  "trim s = rev (dropWhile isWhiteSpace (rev (dropWhile isWhiteSpace s)))"

text \<open>
  \<^verbatim>\<open>s.toLowerCase()\<close>, code unit by code unit: on U+0000 to U+00FF the upper-case
  letters are A to Z and U+00C0 to U+00DE without the multiplication sign U+00D7, each
  32 below its lower-case letter.
\<close>

definition toLowerCaseUnit :: "char \<Rightarrow> char" where
  "toLowerCaseUnit c =
     (let n = (of_char c :: nat) in
      if (65 \<le> n \<and> n \<le> 90) \<or> (192 \<le> n \<and> n \<le> 222 \<and> n \<noteq> 215)
      then char_of (n + 32) else c)"

definition toLowerCase :: "string \<Rightarrow> string" where
  "toLowerCase s = map toLowerCaseUnit s"

text \<open>\<^verbatim>\<open>s.startsWith(t)\<close> and \<^verbatim>\<open>s.includes(t)\<close>.\<close>

fun startsWith :: "string \<Rightarrow> string \<Rightarrow> bool" where
  "startsWith s [] = True"
| "startsWith [] (d # ds) = False"
| "startsWith (c # cs) (d # ds) = (c = d \<and> startsWith cs ds)"

fun includesStr :: "string \<Rightarrow> string \<Rightarrow> bool" where
  "includesStr [] t = (t = [])"
| "includesStr (c # cs) t = (startsWith (c # cs) t \<or> includesStr cs t)"

text \<open>The decimal digits of a template literal \<^verbatim>\<open>${n}\<close> for a natural number.\<close>

fun digitsOf :: "nat \<Rightarrow> string" where
  "digitsOf n =
     (if n < 10 then [''0123456789'' ! n]
      else digitsOf (n div 10) @ [''0123456789'' ! (n mod 10)])"

section \<open>Regular expressions of the engine\<close>

text \<open>
  Every regular expression of the source is a sequence of single-character items, each
  taken once (\<open>Ch\<close>), any number of times (\<open>Many\<close>, the \<^verbatim>\<open>*\<close>) or at least once
  (\<open>Many1\<close>, the \<^verbatim>\<open>+\<close>). \<open>matchRest\<close> is the backtracking matcher at the start of
  a string: a greedy item first takes as many characters as it can and gives them back
  one by one while the rest of the pattern fails. It returns what follows the match.
\<close>

datatype item = Ch "char \<Rightarrow> bool" | Many "char \<Rightarrow> bool" | Many1 "char \<Rightarrow> bool"

fun matchRest :: "item list \<Rightarrow> string \<Rightarrow> string option" where
  "matchRest [] s = Some s"
| "matchRest (Ch p # r) [] = None"
| "matchRest (Ch p # r) (c # cs) = (if p c then matchRest r cs else None)"
| "matchRest (Many p # r) [] = matchRest r []"
| "matchRest (Many p # r) (c # cs) =
     (if p c
      then (case matchRest (Many p # r) cs of
              Some t \<Rightarrow> Some t
            | None \<Rightarrow> matchRest r (c # cs))
      else matchRest r (c # cs))"
| "matchRest (Many1 p # r) [] = None"
| "matchRest (Many1 p # r) (c # cs) = (if p c then matchRest (Many p # r) cs else None)"

text \<open>\<^verbatim>\<open>re.test(s)\<close>: a match starting anywhere.\<close>

fun test :: "item list \<Rightarrow> string \<Rightarrow> bool" where
  "test pat [] = (matchRest pat [] \<noteq> None)"
| "test pat (c # cs) = (matchRest pat (c # cs) \<noteq> None \<or> test pat cs)"

text \<open>
  \<^verbatim>\<open>s.replace(re, repl)\<close> for a global pattern: every match from left to right is
  replaced; an empty match is replaced too and the scan moves one character on.
\<close>

function replaceAll :: "item list \<Rightarrow> string \<Rightarrow> string \<Rightarrow> string" where
  "replaceAll pat repl [] = (case matchRest pat [] of Some t \<Rightarrow> repl | None \<Rightarrow> [])"
| "replaceAll pat repl (c # cs) =
     (case matchRest pat (c # cs) of
        None \<Rightarrow> c # replaceAll pat repl cs
      | Some t \<Rightarrow>
          if length t < Suc (length cs) then repl @ replaceAll pat repl t
          else repl @ c # replaceAll pat repl cs)"
  by pat_completeness auto
termination
  by (relation "measure (\<lambda>(pat, repl, s). length s)") auto

text \<open>
  \<^verbatim>\<open>s.replace(re, repl)\<close> for a multiline pattern that begins with \<^verbatim>\<open>^\<close> and is not
  global: the first match that starts at the beginning of the string or right after a
  line terminator is replaced. The flag tells whether the scan stands at such a place.
\<close>

fun replaceFirstAtLineStart :: "item list \<Rightarrow> string \<Rightarrow> bool \<Rightarrow> string \<Rightarrow> string" where
  "replaceFirstAtLineStart pat repl atStart [] =
     (case (if atStart then matchRest pat [] else None) of
        Some t \<Rightarrow> repl @ t
      | None \<Rightarrow> [])"
| "replaceFirstAtLineStart pat repl atStart (c # cs) =
     (case (if atStart then matchRest pat (c # cs) else None) of
        Some t \<Rightarrow> repl @ t
      | None \<Rightarrow> c # replaceFirstAtLineStart pat repl (isLineTerminator c) cs)"

text \<open>
  \<^verbatim>\<open>s.split(re)\<close>: the scan keeps the piece read since the last separator (reversed in
  \<open>piece\<close>); a match that ends where the piece began is skipped, any other match closes
  the piece. The empty string splits into one empty piece unless the pattern matches it.
\<close>

function splitAcc :: "item list \<Rightarrow> string \<Rightarrow> string \<Rightarrow> string list" where
  "splitAcc pat piece [] = [rev piece]"
| "splitAcc pat piece (c # cs) =
     (case matchRest pat (c # cs) of
        None \<Rightarrow> splitAcc pat (c # piece) cs
      | Some t \<Rightarrow>
          if length t < Suc (length cs) then rev piece # splitAcc pat [] t
          else if piece = [] then splitAcc pat [c] cs
          else rev piece # splitAcc pat [] (c # cs))"
  by pat_completeness auto
termination
  by (relation "measures [\<lambda>(pat, piece, s). length s, \<lambda>(pat, piece, s). length piece]") auto

definition jsSplit :: "item list \<Rightarrow> string \<Rightarrow> string list" where
  "jsSplit pat s =
     (if s = [] then (case matchRest pat [] of Some t \<Rightarrow> [] | None \<Rightarrow> [[]])
      else splitAcc pat [] s)"

text \<open>The patterns \<^verbatim>\<open>/\s+/\<close> of \<^verbatim>\<open>makeResult\<close> and \<^verbatim>\<open>/\n{3,}/g\<close> of \<^verbatim>\<open>cleanHtmlToMarkdown\<close>.\<close>

definition whitespaceRun :: "item list" where
  "whitespaceRun = [Many1 isWhiteSpace]"

definition threeNewlines :: "item list" where
  "threeNewlines = [Ch isNewline, Ch isNewline, Many1 isNewline]"

text \<open>
  \<^verbatim>\<open>markdown.replace(/\n{3,}/g, "\n\n").trim()\<close>, the blank-line collapse of
  \<^verbatim>\<open>cleanHtmlToMarkdown\<close>.
\<close>

definition collapseBlankLines :: "string \<Rightarrow> string" where
  "collapseBlankLines markdown =
     trim (replaceAll threeNewlines [CHR 0x0A, CHR 0x0A] markdown)"

text \<open>
  The pattern \<^verbatim>\<open>/^#.*\n=+\n/m\<close> of \<^verbatim>\<open>isJinaError\<close>, without its \<^verbatim>\<open>^\<close>, which
  \<open>replaceFirstAtLineStart\<close> implements: a line that starts with \<^verbatim>\<open>#\<close>, then a line of
  \<^verbatim>\<open>=\<close> signs.
\<close>

definition titleHeader :: "item list" where
  "titleHeader =
     [Ch (\<lambda>c. c = CHR ''#''), Many (\<lambda>c. \<not> isLineTerminator c), Ch isNewline,
      Many1 (\<lambda>c. c = CHR ''=''), Ch isNewline]"

text \<open>
  The four patterns of \<^verbatim>\<open>isSpaShell\<close> carry the flag \<^verbatim>\<open>i\<close>. Their literal characters
  are ASCII, and a code unit up to U+00FF equals an ASCII character up to case exactly
  when both have the same ASCII upper-case letter.
\<close>

definition asciiUpper :: "char \<Rightarrow> char" where
  "asciiUpper c =
     (let n = (of_char c :: nat) in if 97 \<le> n \<and> n \<le> 122 then char_of (n - 32) else c)"

definition literalIgnoreCase :: "string \<Rightarrow> item list" where
  "literalIgnoreCase lit = map (\<lambda>p. Ch (\<lambda>c. asciiUpper c = asciiUpper p)) lit"

definition isQuote :: "char \<Rightarrow> bool" where
  "isQuote c = (c = CHR 0x22 \<or> c = CHR 0x27)"

text \<open>\<^verbatim>\<open>/<div[^>]+id=["']app["'][^>]*>\s*<\/div>/i\<close>, for the ids app, root and __next.\<close>

definition emptyRootDiv :: "string \<Rightarrow> item list" where
  "emptyRootDiv ident =
     literalIgnoreCase ''<div'' @ [Many1 (\<lambda>c. c \<noteq> CHR ''>'')] @
     literalIgnoreCase ''id='' @ [Ch isQuote] @ literalIgnoreCase ident @ [Ch isQuote] @
     [Many (\<lambda>c. c \<noteq> CHR ''>'')] @ literalIgnoreCase ''>'' @
     [Many isWhiteSpace] @ literalIgnoreCase ''</div>''"

text \<open>\<^verbatim>\<open>/data-page=["'][^"']+["']/i\<close>.\<close>

definition dataPage :: "item list" where
  "dataPage =
     literalIgnoreCase ''data-page='' @ [Ch isQuote, Many1 (\<lambda>c. \<not> isQuote c), Ch isQuote]"

definition spaPatterns :: "item list list" where
  "spaPatterns = [emptyRootDiv ''app'', emptyRootDiv ''root'', emptyRootDiv ''__next'', dataPage]"

section \<open>Collaborators\<close>

text \<open>
  The browser's \<^verbatim>\<open>DOMParser\<close> and the Turndown converter are not part of the
  repository. They are parameters of the model: a type \<open>'d\<close> of documents, a type \<open>'e\<close> of
  elements and the operations the engine calls on them. \<open>removeAll sel doc\<close> is the document
  after \<^verbatim>\<open>doc.querySelectorAll(sel).forEach((el) => el.remove())\<close>, \<open>body\<close> is
  \<^verbatim>\<open>doc.body\<close> (\<open>None\<close> for null), \<open>querySelector\<close> is \<^verbatim>\<open>doc.querySelector(sel)\<close> and
  \<open>turndown\<close> is the configured \<^verbatim>\<open>td.turndown\<close>. All of them return: parsing
  \<^verbatim>\<open>text/html\<close> and removing or reading elements raise no exception.
\<close>

record ('d, 'e) env =
  parseFromString :: "string \<Rightarrow> 'd"
  removeAll :: "string \<Rightarrow> 'd \<Rightarrow> 'd"
  body :: "'d \<Rightarrow> 'e option"
  querySelector :: "string \<Rightarrow> 'd \<Rightarrow> 'e option"
  innerText :: "'e \<Rightarrow> string"
  innerHTML :: "'e \<Rightarrow> string"
  turndown :: "string \<Rightarrow> string"

section \<open>Content validators\<close>

definition isSpaShell :: "('d, 'e) env \<Rightarrow> string \<Rightarrow> bool" where
  "isSpaShell E html =
     (let doc = removeAll E ''script, style, noscript, meta, link'' (parseFromString E html);
          textContent = trim (case body E doc of Some b \<Rightarrow> innerText E b | None \<Rightarrow> [])
      in if length textContent < 150 then True
         else let bodyHtml = (case body E doc of Some b \<Rightarrow> innerHTML E b | None \<Rightarrow> [])
              in list_ex (\<lambda>p. test p bodyHtml) spaPatterns)"

definition isJinaError :: "string \<Rightarrow> bool" where
  "isJinaError text =
     (if text = [] \<or> length text < 100 then True
      else let lower = toLowerCase text in
        if includesStr lower ''warning: target url returned error'' then True
        else if includesStr lower ''captcha'' then True
        else if includesStr lower ''403: forbidden'' then True
        else if includesStr lower ''access denied'' then True
        else let stripped = trim (replaceFirstAtLineStart titleHeader [] True text)
             in length stripped < 100)"

section \<open>Markdown normalizer\<close>

definition noiseSelectors :: "string list" where
  "noiseSelectors =
     [''script'', ''style'', ''nav'', ''footer'', ''header'', ''aside'',
      ''iframe'', ''form'', ''button'', ''input'', ''select'', ''textarea'',
      ''noscript'', ''[role='' @ [CHR 0x22] @ ''navigation'' @ [CHR 0x22] @ '']'',
      ''[role='' @ [CHR 0x22] @ ''banner'' @ [CHR 0x22] @ '']'',
      ''[role='' @ [CHR 0x22] @ ''complementary'' @ [CHR 0x22] @ '']'',
      ''.cookie-banner'', ''.popup'',
      ''.modal'', ''.advertisement'', ''.ad'', ''.sidebar'']"

definition contentSelectors :: "string list" where
  "contentSelectors =
     [''article'', ''main'', ''[role='' @ [CHR 0x22] @ ''main'' @ [CHR 0x22] @ '']'',
      ''.content'', ''.post-content'', ''.entry-content'', ''.article-body'',
      ''.page-content'', ''.main-content'', ''.site-content'',
      ''body'']"

text \<open>The loop over \<^verbatim>\<open>contentSelectors\<close> that stops at the first selector with an element.\<close>

fun firstElement :: "('d, 'e) env \<Rightarrow> 'd \<Rightarrow> string list \<Rightarrow> 'e option" where
  "firstElement E doc [] = None"
| "firstElement E doc (sel # sels) =
     (case querySelector E sel doc of
        Some el \<Rightarrow> Some el
      | None \<Rightarrow> firstElement E doc sels)"

text \<open>
  The provenance header of both builders. \<open>stamp\<close> is the string of
  \<^verbatim>\<open>new Date().toISOString()\<close> at the time of the call.
\<close>

definition header :: "string \<Rightarrow> string \<Rightarrow> nat \<Rightarrow> string" where
  "header sourceUrl stamp layersTriedCount =
     ''---'' @ [CHR 0x0A] @ ''source: '' @ sourceUrl @ [CHR 0x0A] @
     ''scraped: '' @ stamp @ [CHR 0x0A] @
     ''layers_tried: '' @ digitsOf layersTriedCount @ [CHR 0x0A] @
     ''---'' @ [CHR 0x0A, CHR 0x0A]"

definition cleanHtmlToMarkdown ::
  "('d, 'e) env \<Rightarrow> string \<Rightarrow> string \<Rightarrow> string \<Rightarrow> nat \<Rightarrow> string" where
  "cleanHtmlToMarkdown E stamp html sourceUrl layersTriedCount =
     (let doc = fold (removeAll E) noiseSelectors (parseFromString E html);
          mainEl = firstElement E doc contentSelectors;
          rawHtml = (case mainEl of
                       Some el \<Rightarrow> innerHTML E el
                     | None \<Rightarrow> (case body E doc of Some b \<Rightarrow> innerHTML E b | None \<Rightarrow> []));
          markdown = collapseBlankLines (turndown E rawHtml)
      in header sourceUrl stamp layersTriedCount @ markdown)"

definition buildJinaMarkdown :: "string \<Rightarrow> string \<Rightarrow> string \<Rightarrow> nat \<Rightarrow> string" where
  "buildJinaMarkdown stamp text sourceUrl layersTriedCount =
     header sourceUrl stamp layersTriedCount @ trim text"

section \<open>Result assembler\<close>

record ScrapeResult =
  markdown :: string
  layersTriedCount :: nat
  wordCount :: nat
  readTime :: nat

text \<open>
  \<^verbatim>\<open>Math.ceil(wordCount / 200)\<close> is the ceiling of a real quotient; the quotient of a
  string length by 200 is far from the range where a double would round it across an
  integer.
\<close>

definition makeResult :: "string \<Rightarrow> ScrapeResult" where
  "makeResult md =
     (let wc = length (filter (\<lambda>t. t \<noteq> []) (jsSplit whitespaceRun md));
          rt = nat \<lceil>real wc / 200\<rceil>
      in \<lparr>markdown = md, layersTriedCount = 0, wordCount = wc, readTime = rt\<rparr>)"

section \<open>Pipeline orchestrator\<close>

datatype layerState = Pending | Trying | Success | Failed

record LayerStatus =
  layer :: nat
  name :: string
  status :: layerState

text \<open>
  The array \<^verbatim>\<open>layers\<close> of a run, and the snapshots the callback \<^verbatim>\<open>onLayerUpdate\<close> has
  received so far, oldest first. The callback is an observer: it receives a copy of the
  array and returns.
\<close>

record progress =
  layers :: "LayerStatus list"
  emitted :: "LayerStatus list list"

definition initialProgress :: progress where
  "initialProgress =
     \<lparr>layers =
        [\<lparr>layer = 1, name = ''AllOrigins'', status = Pending\<rparr>,
         \<lparr>layer = 2, name = ''ThingProxy'', status = Pending\<rparr>,
         \<lparr>layer = 3, name = ''CodeTabs'', status = Pending\<rparr>,
         \<lparr>layer = 4, name = ''Jina Reader'', status = Pending\<rparr>,
         \<lparr>layer = 5, name = ''Google Cache'', status = Pending\<rparr>,
         \<lparr>layer = 6, name = ''Wayback Machine'', status = Pending\<rparr>,
         \<lparr>layer = 7, name = ''12ft.io'', status = Pending\<rparr>,
         \<lparr>layer = 8, name = ''HTMLRender.dev'', status = Pending\<rparr>],
      emitted = []\<rparr>"

text \<open>
  \<^verbatim>\<open>updateLayer(index, status)\<close>. The source calls it with the literals 0 to 7 only, all
  inside the array of eight entries.
\<close>

definition updateLayer :: "nat \<Rightarrow> layerState \<Rightarrow> progress \<Rightarrow> progress" where
  "updateLayer index st p =
     (let layers' = (layers p)[index := (layers p ! index)\<lparr>status := st\<rparr>]
      in \<lparr>layers = layers', emitted = emitted p @ [layers']\<rparr>)"

text \<open>
  What the network answers to one \<^verbatim>\<open>fetch\<close> and to the reading of its body:
  \<open>FetchThrows\<close> when the promise of \<^verbatim>\<open>fetch\<close> rejects (a network error, or the abort
  of \<^verbatim>\<open>AbortSignal.timeout\<close>), \<open>NotOk\<close> when \<^verbatim>\<open>res.ok\<close> is false, \<open>BodyThrows\<close> when
  \<^verbatim>\<open>res.text()\<close> or \<^verbatim>\<open>res.json()\<close> rejects, \<open>Body b\<close> when the body \<open>b\<close> is read.
\<close>

datatype 'a fetched = FetchThrows | NotOk | BodyThrows | Body 'a

text \<open>
  The world of one run: the answer to each request the run can make, and the clock. The
  body of a JSON envelope is its string field (\<^verbatim>\<open>data?.contents\<close>, or
  \<^verbatim>\<open>availData?.archived_snapshots?.closest?.url\<close>), \<open>None\<close> when there is none; the
  answer to the second request of layer 6 depends on the snapshot address of the first.
\<close>

record world =
  allOrigins :: "string option fetched"
  thingProxy :: "string fetched"
  codeTabs :: "string fetched"
  jinaReader :: "string fetched"
  googleCache :: "string option fetched"
  waybackAvailable :: "string option fetched"
  waybackSnapshot :: "string \<Rightarrow> string option fetched"
  twelveFt :: "string option fetched"
  htmlRender :: "string option fetched"
  toISOString :: string

text \<open>
  The \<^verbatim>\<open>try\<close> block of each layer up to its decision: the candidate it accepts, or
  \<open>None\<close> when the block ends without one or its exception is caught.
\<close>

definition layer1 :: "('d, 'e) env \<Rightarrow> world \<Rightarrow> string option" where
  "layer1 E W =
     (case allOrigins W of
        Body (Some contents) \<Rightarrow>
          if contents \<noteq> [] \<and> length contents > 200 \<and> \<not> isSpaShell E contents
          then Some contents else None
      | _ \<Rightarrow> None)"

definition layer2 :: "('d, 'e) env \<Rightarrow> world \<Rightarrow> string option" where
  "layer2 E W =
     (case thingProxy W of
        Body html \<Rightarrow>
          if html \<noteq> [] \<and> length html > 200 \<and> \<not> isSpaShell E html
          then Some html else None
      | _ \<Rightarrow> None)"

definition layer3 :: "('d, 'e) env \<Rightarrow> world \<Rightarrow> string option" where
  "layer3 E W =
     (case codeTabs W of
        Body html \<Rightarrow>
          if html \<noteq> [] \<and> length html > 200 \<and> \<not> isSpaShell E html
          then Some html else None
      | _ \<Rightarrow> None)"

definition layer4 :: "world \<Rightarrow> string option" where
  "layer4 W =
     (case jinaReader W of
        Body text \<Rightarrow> if \<not> isJinaError text then Some text else None
      | _ \<Rightarrow> None)"

definition layer5 :: "('d, 'e) env \<Rightarrow> world \<Rightarrow> string option" where
  "layer5 E W =
     (case googleCache W of
        Body (Some contents) \<Rightarrow>
          if contents \<noteq> [] \<and> length contents > 300 \<and> \<not> isSpaShell E contents
          then Some contents else None
      | _ \<Rightarrow> None)"

definition layer6 :: "('d, 'e) env \<Rightarrow> world \<Rightarrow> string option" where
  "layer6 E W =
     (case waybackAvailable W of
        Body (Some snapshotUrl) \<Rightarrow>
          if snapshotUrl \<noteq> []
          then (case waybackSnapshot W snapshotUrl of
                  Body (Some contents) \<Rightarrow>
                    if contents \<noteq> [] \<and> length contents > 300 \<and> \<not> isSpaShell E contents
                    then Some contents else None
                | _ \<Rightarrow> None)
          else None
      | _ \<Rightarrow> None)"

definition layer7 :: "('d, 'e) env \<Rightarrow> world \<Rightarrow> string option" where
  "layer7 E W =
     (case twelveFt W of
        Body (Some contents) \<Rightarrow>
          if contents \<noteq> [] \<and> length contents > 300 \<and> \<not> isSpaShell E contents
          then Some contents else None
      | _ \<Rightarrow> None)"

definition layer8 :: "('d, 'e) env \<Rightarrow> world \<Rightarrow> string option" where
  "layer8 E W =
     (case htmlRender W of
        Body (Some contents) \<Rightarrow>
          if contents \<noteq> [] \<and> length contents > 300 \<and> \<not> isSpaShell E contents
          then Some contents else None
      | _ \<Rightarrow> None)"

datatype error = Error string

text \<open>
  \<^verbatim>\<open>scrapeUrl(url, onLayerUpdate)\<close>: what the promise settles to (\<open>Inr\<close> the result,
  \<open>Inl\<close> the error thrown), the array \<^verbatim>\<open>layers\<close> at that moment and every snapshot the
  callback received.
\<close>

definition scrapeUrl ::
  "('d, 'e) env \<Rightarrow> world \<Rightarrow> string \<Rightarrow> (error + ScrapeResult) \<times> progress" where
  "scrapeUrl E W url =
    (let p = updateLayer 0 Trying initialProgress in
     case layer1 E W of
       Some contents \<Rightarrow>
         (let p = updateLayer 0 Success p
          in (Inr (makeResult (cleanHtmlToMarkdown E (toISOString W) contents url 1)), p))
     | None \<Rightarrow>
    (let p = updateLayer 0 Failed p; p = updateLayer 1 Trying p in
     case layer2 E W of
       Some html \<Rightarrow>
         (let p = updateLayer 1 Success p
          in (Inr (makeResult (cleanHtmlToMarkdown E (toISOString W) html url 2)), p))
     | None \<Rightarrow>
    (let p = updateLayer 1 Failed p; p = updateLayer 2 Trying p in
     case layer3 E W of
       Some html \<Rightarrow>
         (let p = updateLayer 2 Success p
          in (Inr (makeResult (cleanHtmlToMarkdown E (toISOString W) html url 3)), p))
     | None \<Rightarrow>
    (let p = updateLayer 2 Failed p; p = updateLayer 3 Trying p in
     case layer4 W of
       Some text \<Rightarrow>
         (let p = updateLayer 3 Success p
          in (Inr (makeResult (buildJinaMarkdown (toISOString W) text url 4)), p))
     | None \<Rightarrow>
    (let p = updateLayer 3 Failed p; p = updateLayer 4 Trying p in
     case layer5 E W of
       Some contents \<Rightarrow>
         (let p = updateLayer 4 Success p
          in (Inr (makeResult (cleanHtmlToMarkdown E (toISOString W) contents url 5)), p))
     | None \<Rightarrow>
    (let p = updateLayer 4 Failed p; p = updateLayer 5 Trying p in
     case layer6 E W of
       Some contents \<Rightarrow>
         (let p = updateLayer 5 Success p
          in (Inr (makeResult (cleanHtmlToMarkdown E (toISOString W) contents url 6)), p))
     | None \<Rightarrow>
    (let p = updateLayer 5 Failed p; p = updateLayer 6 Trying p in
     case layer7 E W of
       Some contents \<Rightarrow>
         (let p = updateLayer 6 Success p
          in (Inr (makeResult (cleanHtmlToMarkdown E (toISOString W) contents url 7)), p))
     | None \<Rightarrow>
    (let p = updateLayer 6 Failed p; p = updateLayer 7 Trying p in
     case layer8 E W of
       Some contents \<Rightarrow>
         (let p = updateLayer 7 Success p
          in (Inr (makeResult (cleanHtmlToMarkdown E (toISOString W) contents url 8)), p))
     | None \<Rightarrow>
    (let p = updateLayer 7 Failed p
     in (Inl (Error ''All layers failed''), p))))))))))"

section \<open>Notions of the specification\<close>

text \<open>
  The white-space-delimited tokens of a string, as the specification counts words: the
  maximal runs of characters that are not white space, from left to right.
\<close>

function whitespaceTokens :: "string \<Rightarrow> string list" where
  "whitespaceTokens s =
     (case dropWhile isWhiteSpace s of
        [] \<Rightarrow> []
      | c # cs \<Rightarrow>
          takeWhile (\<lambda>x. \<not> isWhiteSpace x) (c # cs) #
          whitespaceTokens (dropWhile (\<lambda>x. \<not> isWhiteSpace x) (c # cs)))"
  by pat_completeness auto
termination
proof (relation "measure length")
  show "wf (measure length)" by simp
next
  fix s :: string and c cs
  assume d: "dropWhile isWhiteSpace s = c # cs"
  from hd_dropWhile [of isWhiteSpace s] d have "\<not> isWhiteSpace c" by simp
  then have "dropWhile (\<lambda>x. \<not> isWhiteSpace x) (c # cs) = dropWhile (\<lambda>x. \<not> isWhiteSpace x) cs"
    by simp
  moreover have "length (dropWhile (\<lambda>x. \<not> isWhiteSpace x) cs) \<le> length cs"
    by (rule length_dropWhile_le)
  moreover have "length (c # cs) \<le> length s"
    using length_dropWhile_le [of isWhiteSpace s] d by simp
  ultimately show "(dropWhile (\<lambda>x. \<not> isWhiteSpace x) (c # cs), s) \<in> measure length"
    by simp
qed

text \<open>Lines joined by newlines: the shape of the provenance header block.\<close>

fun joinLines :: "string list \<Rightarrow> string" where
  "joinLines [] = []"
| "joinLines [l] = l"
| "joinLines (l # m # ls) = l @ [CHR 0x0A] @ joinLines (m # ls)"

text \<open>
  The strings a pattern denotes, against which the backtracking matcher is checked: each
  item stands for one character, for any run or for a non-empty run of characters of its
  class.
\<close>

fun denotes :: "item list \<Rightarrow> string \<Rightarrow> bool" where
  "denotes [] m = (m = [])"
| "denotes (Ch p # r) m = (\<exists>c m'. m = c # m' \<and> p c \<and> denotes r m')"
| "denotes (Many p # r) m = (\<exists>u v. m = u @ v \<and> list_all p u \<and> denotes r v)"
| "denotes (Many1 p # r) m = (\<exists>u v. m = u @ v \<and> u \<noteq> [] \<and> list_all p u \<and> denotes r v)"

text \<open>
  The candidates the eight strategies accept in a world, in the order of the cascade, and
  the first of them: strategy \<open>k\<close>, counted from 1, accepts \<open>c\<close> and no earlier strategy
  accepts anything.
\<close>

definition candidates :: "('d, 'e) env \<Rightarrow> world \<Rightarrow> string option list" where
  "candidates E W =
     [layer1 E W, layer2 E W, layer3 E W, layer4 W,
      layer5 E W, layer6 E W, layer7 E W, layer8 E W]"

definition firstAccepted :: "('d, 'e) env \<Rightarrow> world \<Rightarrow> nat \<Rightarrow> string \<Rightarrow> bool" where
  "firstAccepted E W k c =
     (1 \<le> k \<and> k \<le> 8 \<and> candidates E W ! (k - 1) = Some c \<and>
      list_all (\<lambda>j. candidates E W ! j = None) [0..<k - 1])"

text \<open>
  The progress of a run in which the first \<open>k\<close> strategies have been tried and have
  failed, and of a run that stops with the success of the strategy at index \<open>k\<close> (from 0).
\<close>

fun failedUpTo :: "nat \<Rightarrow> progress" where
  "failedUpTo 0 = initialProgress"
| "failedUpTo (Suc k) = updateLayer k Failed (updateLayer k Trying (failedUpTo k))"

definition succeededAt :: "nat \<Rightarrow> progress" where
  "succeededAt k = updateLayer k Success (updateLayer k Trying (failedUpTo k))"

definition finalRuns :: "progress list" where
  "finalRuns = failedUpTo 8 # map succeededAt [0..<8]"

text \<open>The Markdown that strategy \<open>k\<close> builds from its accepted candidate.\<close>

definition rendered :: "('d, 'e) env \<Rightarrow> world \<Rightarrow> string \<Rightarrow> nat \<Rightarrow> string \<Rightarrow> string" where
  "rendered E W url k c =
     (if k = 4 then buildJinaMarkdown (toISOString W) c url 4
      else cleanHtmlToMarkdown E (toISOString W) c url k)"

text \<open>The statuses of the array \<^verbatim>\<open>layers\<close> when the run ends.\<close>

definition finalStatuses :: "('d, 'e) env \<Rightarrow> world \<Rightarrow> string \<Rightarrow> layerState list" where
  "finalStatuses E W url = map status (layers (snd (scrapeUrl E W url)))"

text \<open>
  The statuses one layer goes through in a run, from the initial array through every
  snapshot the callback received, repetitions of a status left out.
\<close>

definition history :: "nat \<Rightarrow> progress \<Rightarrow> layerState list" where
  "history i p =
     remdups_adj (map (\<lambda>snapshot. status (snapshot ! i)) (layers initialProgress # emitted p))"

text \<open>
  The raw HTML a strategy of HTML origin receives, when its transport delivers one, and
  the minimum length of the specification: 200 characters for strategies 1 to 3, 300 for
  strategies 5 to 8.
\<close>

definition payload :: "world \<Rightarrow> nat \<Rightarrow> string option" where
  "payload W k =
     (if k = 1 then (case allOrigins W of Body (Some c) \<Rightarrow> Some c | _ \<Rightarrow> None)
      else if k = 2 then (case thingProxy W of Body c \<Rightarrow> Some c | _ \<Rightarrow> None)
      else if k = 3 then (case codeTabs W of Body c \<Rightarrow> Some c | _ \<Rightarrow> None)
      else if k = 5 then (case googleCache W of Body (Some c) \<Rightarrow> Some c | _ \<Rightarrow> None)
      else if k = 6 then
        (case waybackAvailable W of
           Body (Some u) \<Rightarrow>
             if u = [] then None
             else (case waybackSnapshot W u of Body (Some c) \<Rightarrow> Some c | _ \<Rightarrow> None)
         | _ \<Rightarrow> None)
      else if k = 7 then (case twelveFt W of Body (Some c) \<Rightarrow> Some c | _ \<Rightarrow> None)
      else if k = 8 then (case htmlRender W of Body (Some c) \<Rightarrow> Some c | _ \<Rightarrow> None)
      else None)"

definition minimumLength :: "nat \<Rightarrow> nat" where
  "minimumLength k = (if k \<le> 3 then 200 else 300)"

text \<open>
  The bot-wall detector in the words of the specification: the failure markers, and a
  title line with its separator line stripped where it leads the text.
\<close>

definition failureMarkers :: "string list" where
  "failureMarkers =
     [''warning: target url returned error'', ''captcha'', ''403: forbidden'', ''access denied'']"

definition stripLeadingHeader :: "string \<Rightarrow> string" where
  "stripLeadingHeader text = (case matchRest titleHeader text of Some t \<Rightarrow> t | None \<Rightarrow> text)"

definition botWallAsSpecified :: "string \<Rightarrow> bool" where
  "botWallAsSpecified text =
     (text = [] \<or> length text < 100 \<or>
      list_ex (includesStr (toLowerCase text)) failureMarkers \<or>
      length (trim (stripLeadingHeader text)) < 100)"

text \<open>
  The transport of strategy \<open>k\<close> fails: a request of the strategy throws (a network error
  or the expiry of its timeout), answers with a status that is not ok, or the reading of
  its body throws.
\<close>

fun delivered :: "'a fetched \<Rightarrow> bool" where
  "delivered (Body b) = True"
| "delivered FetchThrows = False"
| "delivered NotOk = False"
| "delivered BodyThrows = False"

definition transportFailed :: "world \<Rightarrow> nat \<Rightarrow> bool" where
  "transportFailed W k =
     (if k = 1 then \<not> delivered (allOrigins W)
      else if k = 2 then \<not> delivered (thingProxy W)
      else if k = 3 then \<not> delivered (codeTabs W)
      else if k = 4 then \<not> delivered (jinaReader W)
      else if k = 5 then \<not> delivered (googleCache W)
      else if k = 6 then
        (case waybackAvailable W of
           Body (Some u) \<Rightarrow> u \<noteq> [] \<and> \<not> delivered (waybackSnapshot W u)
         | Body None \<Rightarrow> False
         | _ \<Rightarrow> True)
      else if k = 7 then \<not> delivered (twelveFt W)
      else if k = 8 then \<not> delivered (htmlRender W)
      else False)"

text \<open>
  The validators of a strategy reject what its transport delivered: the bot-wall detector
  for the reader service, the minimum length and the shell detector for the others.
\<close>

definition rejected :: "('d, 'e) env \<Rightarrow> world \<Rightarrow> nat \<Rightarrow> bool" where
  "rejected E W k =
     (if k = 4 then (case jinaReader W of Body t \<Rightarrow> isJinaError t | _ \<Rightarrow> False)
      else (case payload W k of
              Some c \<Rightarrow> length c \<le> minimumLength k \<or> isSpaShell E c
            | None \<Rightarrow> False))"

section \<open>Example runs\<close>

text \<open>
  A collaborator for pages of plain text: nothing is removed, the body is the whole page
  and is the only element, and its Markdown is the text itself.
\<close>

definition plainEnv :: "(string, string) env" where
  "plainEnv =
     \<lparr>parseFromString = (\<lambda>html. html),
      removeAll = (\<lambda>sel doc. doc),
      body = (\<lambda>doc. Some doc),
      querySelector = (\<lambda>sel doc. if sel = ''body'' then Some doc else None),
      innerText = (\<lambda>el. el),
      innerHTML = (\<lambda>el. el),
      turndown = (\<lambda>html. html)\<rparr>"

definition exampleUrl :: string where
  "exampleUrl = ''https://example.com/a''"

definition article :: string where
  "article = concat (replicate 50 ''lorem '')"

text \<open>A world without network: every request fails.\<close>

definition offline :: world where
  "offline =
     \<lparr>allOrigins = FetchThrows, thingProxy = FetchThrows, codeTabs = FetchThrows,
      jinaReader = FetchThrows, googleCache = FetchThrows, waybackAvailable = FetchThrows,
      waybackSnapshot = (\<lambda>u. FetchThrows), twelveFt = FetchThrows, htmlRender = FetchThrows,
      toISOString = ''2024-05-01T12:00:00.000Z''\<rparr>"

text \<open>
  Scenario B of the specification: the first proxy times out, the second returns a short
  error page, the third returns an article.
\<close>

definition scenarioB :: world where
  "scenarioB =
     offline\<lparr>thingProxy := Body ''<html><body>502 Bad Gateway</body></html>'',
             codeTabs := Body article\<rparr>"

text \<open>
  A world in which the proxies fail and the reader service answers: with an article, and
  with the text of a refusal.
\<close>

definition readerText :: string where
  "readerText = '' '' @ article"

definition readerWorld :: world where
  "readerWorld =
     offline\<lparr>allOrigins := NotOk, thingProxy := BodyThrows, codeTabs := Body ''blocked'',
             jinaReader := Body readerText\<rparr>"

definition forbiddenWorld :: world where
  "forbiddenWorld =
     offline\<lparr>jinaReader := Body (article @ ''Error 403: Forbidden '' @ article)\<rparr>"

text \<open>
  A reader text of 109 characters whose title line and separator line stand in the
  middle, between 50 and 42 other characters.
\<close>

definition headerInside :: string where
  "headerInside =
     replicate 50 CHR ''a'' @ [CHR 0x0A] @ ''# Title'' @ [CHR 0x0A] @ ''======='' @ [CHR 0x0A] @
     replicate 42 CHR ''b''"

text \<open>
  A page one character over 300, and the worlds in which only the cache lookup of layer 5
  delivers a page.
\<close>

definition overPage :: string where
  "overPage = article @ ''!''"

definition boundaryWorld :: "string \<Rightarrow> world" where
  "boundaryWorld page = offline\<lparr>googleCache := Body (Some page)\<rparr>"

section \<open>Facts about the string operations\<close>

subsection \<open>Trimming\<close>

lemma sublist_trim: "sublist (trim s) s"
proof -
  let ?u = "dropWhile isWhiteSpace s"
  have "sublist (dropWhile isWhiteSpace (rev ?u)) (rev ?u)"
    by (rule suffix_imp_sublist [OF suffix_dropWhile])
  then have "sublist (trim s) ?u"
    by (simp add: trim_def sublist_rev_left)
  moreover have "sublist ?u s"
    by (rule suffix_imp_sublist [OF suffix_dropWhile])
  ultimately show ?thesis
    by (rule sublist_order.order_trans)
qed

lemma trim_no_leading: "dropWhile isWhiteSpace (trim s) = trim s"
proof (cases "trim s = []")
  case True
  then show ?thesis by simp
next
  case False
  let ?u = "dropWhile isWhiteSpace s"
  let ?d = "dropWhile isWhiteSpace (rev ?u)"
  from False have d: "?d \<noteq> []" by (simp add: trim_def)
  have u: "?u \<noteq> []"
  proof
    assume e: "?u = []"
    have "?d = []" unfolding e by simp
    with d show False ..
  qed
  have "suffix ?d (rev ?u)" by (rule suffix_dropWhile)
  then obtain zs where "rev ?u = zs @ ?d" by (auto simp: suffix_def)
  with d have "last ?d = last (rev ?u)" by (metis last_appendR)
  also from u have "\<dots> = hd ?u" by (simp add: last_rev)
  finally have "hd (trim s) = hd ?u" using d by (simp add: trim_def hd_rev)
  moreover from u have "\<not> isWhiteSpace (hd ?u)" by (rule hd_dropWhile)
  ultimately show ?thesis by (simp add: dropWhile_eq_self_iff)
qed

lemma trim_no_trailing: "dropWhile isWhiteSpace (rev (trim s)) = rev (trim s)"
  by (simp add: trim_def)

lemma trim_trim: "trim (trim s) = trim s"
proof -
  have "trim (trim s) = rev (dropWhile isWhiteSpace (rev (dropWhile isWhiteSpace (trim s))))"
    by (simp only: trim_def)
  also have "\<dots> = rev (dropWhile isWhiteSpace (rev (trim s)))"
    by (simp only: trim_no_leading)
  also have "\<dots> = trim s"
    by (simp only: trim_no_trailing rev_rev_ident)
  finally show ?thesis .
qed


subsection \<open>The blank-line collapse\<close>

lemma matchRest_Many_self: "matchRest [Many p] s = Some (dropWhile p s)"
  by (induction s) auto

lemma matchRest_threeNewlines:
  "matchRest threeNewlines s =
     (if prefix [CHR 0x0A, CHR 0x0A, CHR 0x0A] s then Some (dropWhile isNewline s) else None)"
proof (cases s)
  case Nil
  then show ?thesis by (simp add: threeNewlines_def)
next
  case (Cons a t)
  show ?thesis
  proof (cases t)
    case Nil
    with Cons show ?thesis by (simp add: threeNewlines_def isNewline_def)
  next
    case (Cons b u)
    show ?thesis
    proof (cases u)
      case Nil
      with Cons \<open>s = a # t\<close> show ?thesis by (simp add: threeNewlines_def isNewline_def)
    next
      case (Cons c v)
      with \<open>t = b # u\<close> \<open>s = a # t\<close> show ?thesis
        by (simp add: threeNewlines_def isNewline_def matchRest_Many_self)
    qed
  qed
qed

lemma replaceAll_no_triple:
  "\<not> sublist [CHR 0x0A, CHR 0x0A, CHR 0x0A] s \<Longrightarrow>
   replaceAll threeNewlines r s = s"
proof (induction s)
  case Nil
  then show ?case by (simp add: matchRest_threeNewlines)
next
  case (Cons c cs)
  from Cons.prems have np: "\<not> prefix [CHR 0x0A, CHR 0x0A, CHR 0x0A] (c # cs)"
    and ns: "\<not> sublist [CHR 0x0A, CHR 0x0A, CHR 0x0A] cs"
    by (auto simp: sublist_Cons_right)
  from np have "matchRest threeNewlines (c # cs) = None"
    by (simp only: matchRest_threeNewlines if_False)
  with Cons.IH [OF ns] show ?case by simp
qed

lemma replaceAll_match:
  "matchRest pat (c # cs) = Some t \<Longrightarrow> length t < Suc (length cs) \<Longrightarrow>
   replaceAll pat repl (c # cs) = repl @ replaceAll pat repl t"
  by simp

lemma replaceAll_nomatch:
  "matchRest pat (c # cs) = None \<Longrightarrow>
   replaceAll pat repl (c # cs) = c # replaceAll pat repl cs"
  by simp

declare replaceAll.simps [simp del]

lemma dropWhile_newline_shorter:
  assumes "prefix [CHR 0x0A, CHR 0x0A, CHR 0x0A] (c # cs)"
  shows "length (dropWhile isNewline (c # cs)) < Suc (length cs)"
proof -
  from assms have "isNewline c" by (simp add: isNewline_def)
  then have "dropWhile isNewline (c # cs) = dropWhile isNewline cs" by simp
  then show ?thesis by (simp add: le_imp_less_Suc length_dropWhile_le)
qed

lemma collapse_match:
  assumes "prefix [CHR 0x0A, CHR 0x0A, CHR 0x0A] (c # cs)"
  shows "replaceAll threeNewlines r (c # cs) =
    r @ replaceAll threeNewlines r (dropWhile isNewline (c # cs))"
proof -
  from assms have "matchRest threeNewlines (c # cs) = Some (dropWhile isNewline (c # cs))"
    by (simp only: matchRest_threeNewlines if_True)
  from replaceAll_match [OF this dropWhile_newline_shorter [OF assms]]
  show ?thesis .
qed

lemma collapse_skip:
  assumes "\<not> prefix [CHR 0x0A, CHR 0x0A, CHR 0x0A] (c # cs)"
  shows "replaceAll threeNewlines r (c # cs) = c # replaceAll threeNewlines r cs"
proof -
  from assms have "matchRest threeNewlines (c # cs) = None"
    by (simp only: matchRest_threeNewlines if_False)
  from replaceAll_nomatch [OF this] show ?thesis .
qed

lemma collapse_Nil: "replaceAll threeNewlines r [] = []"
  by (simp add: replaceAll.simps matchRest_threeNewlines)

lemma no_triple_after_two:
  "\<not> prefix [CHR 0x0A] x \<Longrightarrow> \<not> sublist [CHR 0x0A, CHR 0x0A, CHR 0x0A] x \<Longrightarrow>
   \<not> sublist [CHR 0x0A, CHR 0x0A, CHR 0x0A] ([CHR 0x0A, CHR 0x0A] @ x)"
  by (cases x) (auto simp: sublist_Cons_right)

lemma no_triple_Cons:
  "\<not> prefix [CHR 0x0A, CHR 0x0A, CHR 0x0A] (c # x) \<Longrightarrow>
   \<not> sublist [CHR 0x0A, CHR 0x0A, CHR 0x0A] x \<Longrightarrow>
   \<not> sublist [CHR 0x0A, CHR 0x0A, CHR 0x0A] (c # x)"
  by (simp add: sublist_Cons_right)

lemma collapse_prefix1:
  "prefix [CHR 0x0A] (replaceAll threeNewlines [CHR 0x0A, CHR 0x0A] s) \<Longrightarrow> prefix [CHR 0x0A] s"
proof (cases s)
  case Nil
  then show "prefix [CHR 0x0A] (replaceAll threeNewlines [CHR 0x0A, CHR 0x0A] s) \<Longrightarrow> ?thesis"
    by (simp add: collapse_Nil)
next
  case (Cons d ds)
  assume p: "prefix [CHR 0x0A] (replaceAll threeNewlines [CHR 0x0A, CHR 0x0A] s)"
  show ?thesis
  proof (cases "prefix [CHR 0x0A, CHR 0x0A, CHR 0x0A] (d # ds)")
    case True
    then obtain r where "d # ds = [CHR 0x0A, CHR 0x0A, CHR 0x0A] @ r"
      by (auto simp: prefix_def)
    with Cons show ?thesis by simp
  next
    case False
    from p have "prefix [CHR 0x0A] (d # replaceAll threeNewlines [CHR 0x0A, CHR 0x0A] ds)"
      unfolding Cons collapse_skip [OF False] .
    with Cons show ?thesis by simp
  qed
qed

lemma collapse_prefix2:
  "prefix [CHR 0x0A, CHR 0x0A] (replaceAll threeNewlines [CHR 0x0A, CHR 0x0A] s) \<Longrightarrow>
   prefix [CHR 0x0A, CHR 0x0A] s"
proof (cases s)
  case Nil
  then show "prefix [CHR 0x0A, CHR 0x0A] (replaceAll threeNewlines [CHR 0x0A, CHR 0x0A] s) \<Longrightarrow> ?thesis"
    by (simp add: collapse_Nil)
next
  case (Cons d ds)
  assume p: "prefix [CHR 0x0A, CHR 0x0A] (replaceAll threeNewlines [CHR 0x0A, CHR 0x0A] s)"
  show ?thesis
  proof (cases "prefix [CHR 0x0A, CHR 0x0A, CHR 0x0A] (d # ds)")
    case True
    then obtain r where "d # ds = [CHR 0x0A, CHR 0x0A, CHR 0x0A] @ r"
      by (auto simp: prefix_def)
    with Cons show ?thesis by simp
  next
    case False
    from p have "prefix [CHR 0x0A, CHR 0x0A] (d # replaceAll threeNewlines [CHR 0x0A, CHR 0x0A] ds)"
      unfolding Cons collapse_skip [OF False] .
    then have "d = CHR 0x0A"
      and "prefix [CHR 0x0A] (replaceAll threeNewlines [CHR 0x0A, CHR 0x0A] ds)"
      by auto
    with collapse_prefix1 [of ds] Cons show ?thesis by simp
  qed
qed

lemma replaceAll_collapsed:
  "\<not> sublist [CHR 0x0A, CHR 0x0A, CHR 0x0A] (replaceAll threeNewlines [CHR 0x0A, CHR 0x0A] s)"
proof (induction "length s" arbitrary: s rule: less_induct)
  case less
  show ?case
  proof (cases s)
    case Nil
    then show ?thesis by (simp add: collapse_Nil)
  next
    case (Cons c cs)
    show ?thesis
    proof (cases "prefix [CHR 0x0A, CHR 0x0A, CHR 0x0A] (c # cs)")
      case True
      let ?t = "dropWhile isNewline (c # cs)"
      from dropWhile_newline_shorter [OF True] Cons have lt: "length ?t < length s"
        by simp
      have ih: "\<not> sublist [CHR 0x0A, CHR 0x0A, CHR 0x0A] (replaceAll threeNewlines [CHR 0x0A, CHR 0x0A] ?t)"
        by (rule less [OF lt])
      have "\<not> prefix [CHR 0x0A] ?t"
        using hd_dropWhile [of isNewline "c # cs"] by (cases ?t) (auto simp: isNewline_def)
      then have "\<not> prefix [CHR 0x0A] (replaceAll threeNewlines [CHR 0x0A, CHR 0x0A] ?t)"
        using collapse_prefix1 by blast
      then have "\<not> sublist [CHR 0x0A, CHR 0x0A, CHR 0x0A]
          ([CHR 0x0A, CHR 0x0A] @ replaceAll threeNewlines [CHR 0x0A, CHR 0x0A] ?t)"
        using ih by (rule no_triple_after_two)
      then show ?thesis
        unfolding Cons collapse_match [OF True] .
    next
      case False
      have ih: "\<not> sublist [CHR 0x0A, CHR 0x0A, CHR 0x0A] (replaceAll threeNewlines [CHR 0x0A, CHR 0x0A] cs)"
        using less [of cs] Cons by simp
      have "\<not> prefix [CHR 0x0A, CHR 0x0A, CHR 0x0A] (c # replaceAll threeNewlines [CHR 0x0A, CHR 0x0A] cs)"
      proof
        assume "prefix [CHR 0x0A, CHR 0x0A, CHR 0x0A] (c # replaceAll threeNewlines [CHR 0x0A, CHR 0x0A] cs)"
        then have "c = CHR 0x0A"
          and "prefix [CHR 0x0A, CHR 0x0A] (replaceAll threeNewlines [CHR 0x0A, CHR 0x0A] cs)"
          by auto
        with collapse_prefix2 [of cs] have "prefix [CHR 0x0A, CHR 0x0A, CHR 0x0A] (c # cs)"
          by simp
        with False show False ..
      qed
      then have "\<not> sublist [CHR 0x0A, CHR 0x0A, CHR 0x0A]
          (c # replaceAll threeNewlines [CHR 0x0A, CHR 0x0A] cs)"
        using ih by (rule no_triple_Cons)
      then show ?thesis
        unfolding Cons collapse_skip [OF False] .
    qed
  qed
qed

text \<open>
  C6. The blank-line collapse of the normalizer, which replaces every run of three or more
  newlines by two newlines and then trims, is idempotent: collapsing a string that the
  collapse has produced gives the same string again.
\<close>

theorem collapseBlankLines_idempotent:
  "collapseBlankLines (collapseBlankLines s) = collapseBlankLines s"
proof -
  let ?c = "replaceAll threeNewlines [CHR 0x0A, CHR 0x0A] s"
  have "sublist (trim ?c) ?c" by (rule sublist_trim)
  with replaceAll_collapsed [of s]
  have "\<not> sublist [CHR 0x0A, CHR 0x0A, CHR 0x0A] (trim ?c)"
    using sublist_order.order_trans by blast
  then have "replaceAll threeNewlines [CHR 0x0A, CHR 0x0A] (trim ?c) = trim ?c"
    by (rule replaceAll_no_triple)
  then show ?thesis
    by (simp only: collapseBlankLines_def trim_trim)
qed

theorem collapseBlankLines_idempotent_witness:
  "collapseBlankLines
     (collapseBlankLines (''a'' @ [CHR 0x0A, CHR 0x0A, CHR 0x0A, CHR 0x0A] @ ''b'' @ [CHR 0x0A])) =
   ''a'' @ [CHR 0x0A, CHR 0x0A] @ ''b''"
proof -
  have "collapseBlankLines (''a'' @ [CHR 0x0A, CHR 0x0A, CHR 0x0A, CHR 0x0A] @ ''b'' @ [CHR 0x0A]) =
    ''a'' @ [CHR 0x0A, CHR 0x0A] @ ''b''"
    by code_simp
  with collapseBlankLines_idempotent
    [of "''a'' @ [CHR 0x0A, CHR 0x0A, CHR 0x0A, CHR 0x0A] @ ''b'' @ [CHR 0x0A]"]
  show ?thesis by simp
qed

subsection \<open>Splitting into words\<close>

declare whitespaceTokens.simps [simp del]

lemma tokens_Nil: "whitespaceTokens [] = []"
  by (simp add: whitespaceTokens.simps)

lemma tokens_dropWhile: "whitespaceTokens (dropWhile isWhiteSpace s) = whitespaceTokens s"
  by (subst (1 2) whitespaceTokens.simps) simp

lemma tokens_word:
  assumes "u \<noteq> []" and "\<forall>x \<in> set u. \<not> isWhiteSpace x" and "s = [] \<or> isWhiteSpace (hd s)"
  shows "whitespaceTokens (u @ s) = u # whitespaceTokens s"
proof -
  from assms(1) obtain a v where u: "u = a # v" by (cases u) auto
  with assms(2) have a: "\<not> isWhiteSpace a" by simp
  then have d: "dropWhile isWhiteSpace (u @ s) = a # (v @ s)" by (simp add: u)
  have t: "takeWhile (\<lambda>x. \<not> isWhiteSpace x) (u @ s) = u"
    using assms(2,3) by (cases s) (auto simp: takeWhile_append2)
  have r: "dropWhile (\<lambda>x. \<not> isWhiteSpace x) (u @ s) = s"
    using assms(2,3) by (cases s) (auto simp: dropWhile_append2)
  show ?thesis
    apply (subst whitespaceTokens.simps)
    apply (simp only: d list.case)
    using t r unfolding u by simp
qed

lemma matchRest_Many1_self:
  "matchRest [Many1 p] (c # cs) = (if p c then Some (dropWhile p cs) else None)"
  by (simp add: matchRest_Many_self)

lemma splitAcc_tokens:
  "\<forall>x \<in> set piece. \<not> isWhiteSpace x \<Longrightarrow>
   filter (\<lambda>t. t \<noteq> []) (splitAcc whitespaceRun piece s) = whitespaceTokens (rev piece @ s)"
proof (induction "length s" arbitrary: s piece rule: less_induct)
  case less
  show ?case
  proof (cases s)
    case Nil
    show ?thesis
    proof (cases "piece = []")
      case True
      with Nil show ?thesis by (simp add: tokens_Nil)
    next
      case False
      with less.prems tokens_word [of "rev piece" "[]"] Nil show ?thesis
        by (simp add: tokens_Nil)
    qed
  next
    case (Cons c cs)
    show ?thesis
    proof (cases "isWhiteSpace c")
      case False
      then have "splitAcc whitespaceRun piece (c # cs) = splitAcc whitespaceRun (c # piece) cs"
        by (simp add: whitespaceRun_def)
      moreover have "filter (\<lambda>t. t \<noteq> []) (splitAcc whitespaceRun (c # piece) cs) =
          whitespaceTokens (rev (c # piece) @ cs)"
        using less.hyps [of cs "c # piece"] less.prems False Cons by simp
      ultimately show ?thesis using Cons by simp
    next
      case True
      let ?t = "dropWhile isWhiteSpace cs"
      have lt: "length ?t < Suc (length cs)"
        by (simp add: le_imp_less_Suc length_dropWhile_le)
      from True lt have sp: "splitAcc whitespaceRun piece (c # cs) = rev piece # splitAcc whitespaceRun [] ?t"
        by (simp add: whitespaceRun_def matchRest_Many_self)
      have ih: "filter (\<lambda>t. t \<noteq> []) (splitAcc whitespaceRun [] ?t) = whitespaceTokens ?t"
        using less.hyps [of ?t "[]"] lt Cons by simp
      have tk: "whitespaceTokens (c # cs) = whitespaceTokens ?t"
        using tokens_dropWhile [of "c # cs"] True by (simp add: tokens_dropWhile)
      show ?thesis
      proof (cases "piece = []")
        case True
        with sp ih tk Cons show ?thesis by simp
      next
        case False
        with less.prems \<open>isWhiteSpace c\<close> tokens_word [of "rev piece" "c # cs"]
        have "whitespaceTokens (rev piece @ c # cs) = rev piece # whitespaceTokens (c # cs)"
          by simp
        with sp ih tk Cons False show ?thesis by simp
      qed
    qed
  qed
qed

lemma jsSplit_tokens:
  "filter (\<lambda>t. t \<noteq> []) (jsSplit whitespaceRun s) = whitespaceTokens s"
proof (cases "s = []")
  case True
  then show ?thesis by (simp add: jsSplit_def whitespaceRun_def tokens_Nil)
next
  case False
  with splitAcc_tokens [of "[]" s] show ?thesis by (simp add: jsSplit_def)
qed


lemma ceiling_div_200: "nat \<lceil>real n / 200\<rceil> = (n + 199) div 200"
  by linarith

subsection \<open>The result assembler\<close>

lemma makeResult_markdown: "markdown (makeResult md) = md"
  by (simp add: makeResult_def Let_def)

lemma makeResult_layersTriedCount: "layersTriedCount (makeResult md) = 0"
  by (simp add: makeResult_def Let_def)

lemma makeResult_wordCount: "wordCount (makeResult md) = length (whitespaceTokens md)"
  by (simp add: makeResult_def Let_def jsSplit_tokens)

lemma makeResult_readTime: "readTime (makeResult md) = nat \<lceil>real (wordCount (makeResult md)) / 200\<rceil>"
  by (simp add: makeResult_def Let_def)

section \<open>Facts about the cascade\<close>

lemma failedUpTo_numeral:
  "failedUpTo 1 = updateLayer 0 Failed (updateLayer 0 Trying initialProgress)"
  "failedUpTo 2 = updateLayer 1 Failed (updateLayer 1 Trying (failedUpTo 1))"
  "failedUpTo 3 = updateLayer 2 Failed (updateLayer 2 Trying (failedUpTo 2))"
  "failedUpTo 4 = updateLayer 3 Failed (updateLayer 3 Trying (failedUpTo 3))"
  "failedUpTo 5 = updateLayer 4 Failed (updateLayer 4 Trying (failedUpTo 4))"
  "failedUpTo 6 = updateLayer 5 Failed (updateLayer 5 Trying (failedUpTo 5))"
  "failedUpTo 7 = updateLayer 6 Failed (updateLayer 6 Trying (failedUpTo 6))"
  "failedUpTo 8 = updateLayer 7 Failed (updateLayer 7 Trying (failedUpTo 7))"
  by (simp_all add: eval_nat_numeral)

lemma firstAccepted_iff:
  "firstAccepted E W k c \<longleftrightarrow>
     1 \<le> k \<and> k \<le> 8 \<and> candidates E W ! (k - 1) = Some c \<and>
     (\<forall>j < k - 1. candidates E W ! j = None)"
  by (auto simp: firstAccepted_def list_all_iff)

lemma scrapeUrl_exhausted:
  assumes "\<forall>j < 8. candidates E W ! j = None"
  shows "scrapeUrl E W url = (Inl (Error ''All layers failed''), failedUpTo 8)"
proof -
  from assms have "candidates E W ! 0 = None" "candidates E W ! 1 = None"
    "candidates E W ! 2 = None" "candidates E W ! 3 = None" "candidates E W ! 4 = None"
    "candidates E W ! 5 = None" "candidates E W ! 6 = None" "candidates E W ! 7 = None"
    by simp_all
  then have "layer1 E W = None" "layer2 E W = None" "layer3 E W = None" "layer4 W = None"
    "layer5 E W = None" "layer6 E W = None" "layer7 E W = None" "layer8 E W = None"
    by (simp_all add: candidates_def)
  then show ?thesis
    by (simp add: scrapeUrl_def failedUpTo_numeral)
qed

lemma scrapeUrl_accepted:
  assumes "firstAccepted E W k c"
  shows "scrapeUrl E W url = (Inr (makeResult (rendered E W url k c)), succeededAt (k - 1))"
proof -
  from assms have k: "k \<in> {1, 2, 3, 4, 5, 6, 7, 8}"
    by (auto simp: firstAccepted_iff)
  from assms have c: "candidates E W ! (k - 1) = Some c"
    and n: "\<And>j. j < k - 1 \<Longrightarrow> candidates E W ! j = None"
    by (auto simp: firstAccepted_iff)
  from k show ?thesis
  proof (elim insertE emptyE)
    assume "k = 1"
    with c show ?thesis
      by (simp add: candidates_def scrapeUrl_def succeededAt_def rendered_def)
  next
    assume k: "k = 2"
    with n [of 0] c show ?thesis
      by (simp add: candidates_def scrapeUrl_def succeededAt_def rendered_def failedUpTo_numeral)
  next
    assume k: "k = 3"
    with n [of 0] n [of 1] c show ?thesis
      by (simp add: candidates_def scrapeUrl_def succeededAt_def rendered_def failedUpTo_numeral)
  next
    assume k: "k = 4"
    with n [of 0] n [of 1] n [of 2] c show ?thesis
      by (simp add: candidates_def scrapeUrl_def succeededAt_def rendered_def failedUpTo_numeral)
  next
    assume k: "k = 5"
    with n [of 0] n [of 1] n [of 2] n [of 3] c show ?thesis
      by (simp add: candidates_def scrapeUrl_def succeededAt_def rendered_def failedUpTo_numeral)
  next
    assume k: "k = 6"
    with n [of 0] n [of 1] n [of 2] n [of 3] n [of 4] c show ?thesis
      by (simp add: candidates_def scrapeUrl_def succeededAt_def rendered_def failedUpTo_numeral)
  next
    assume k: "k = 7"
    with n [of 0] n [of 1] n [of 2] n [of 3] n [of 4] n [of 5] c show ?thesis
      by (simp add: candidates_def scrapeUrl_def succeededAt_def rendered_def failedUpTo_numeral)
  next
    assume k: "k = 8"
    with n [of 0] n [of 1] n [of 2] n [of 3] n [of 4] n [of 5] n [of 6] c show ?thesis
      by (simp add: candidates_def scrapeUrl_def succeededAt_def rendered_def failedUpTo_numeral)
  qed
qed

lemma accepted_or_exhausted:
  "(\<forall>j < 8. candidates E W ! j = None) \<or> (\<exists>k c. firstAccepted E W k c)"
proof (cases "\<forall>j < 8. candidates E W ! j = None")
  case True
  then show ?thesis ..
next
  case False
  define P where "P j \<longleftrightarrow> j < 8 \<and> candidates E W ! j \<noteq> None" for j
  from False have "\<exists>j. P j" by (auto simp: P_def)
  then have l: "P (LEAST j. P j)" by (rule LeastI_ex)
  define m where "m = (LEAST j. P j)"
  from l have m: "m < 8" "candidates E W ! m \<noteq> None" by (auto simp: m_def P_def)
  then obtain c where c: "candidates E W ! m = Some c" by auto
  have "candidates E W ! j = None" if "j < m" for j
  proof -
    from that have "\<not> P j" unfolding m_def by (rule not_less_Least)
    with that m show ?thesis by (auto simp: P_def)
  qed
  with m c have "firstAccepted E W (Suc m) c"
    by (auto simp: firstAccepted_iff)
  then show ?thesis by blast
qed

lemma firstAccepted_unique:
  assumes "firstAccepted E W k c" and "firstAccepted E W k' c'"
  shows "k = k' \<and> c = c'"
proof -
  have "k = k'"
  proof (rule ccontr)
    assume "k \<noteq> k'"
    then consider "k < k'" | "k' < k" by linarith
    then show False
    proof cases
      case 1
      with assms have "candidates E W ! (k - 1) = None" "candidates E W ! (k - 1) = Some c"
        by (auto simp: firstAccepted_iff)
      then show False by simp
    next
      case 2
      with assms have "candidates E W ! (k' - 1) = None" "candidates E W ! (k' - 1) = Some c'"
        by (auto simp: firstAccepted_iff)
      then show False by simp
    qed
  qed
  with assms show ?thesis by (auto simp: firstAccepted_iff)
qed

text \<open>Every run ends in one of nine ways.\<close>

lemma scrapeUrl_cases:
  obtains (exhausted) "\<forall>j < 8. candidates E W ! j = None"
      "scrapeUrl E W url = (Inl (Error ''All layers failed''), failedUpTo 8)"
  | (accepted) k c where "firstAccepted E W k c"
      "scrapeUrl E W url = (Inr (makeResult (rendered E W url k c)), succeededAt (k - 1))"
  using accepted_or_exhausted [of E W] scrapeUrl_exhausted [of E W url]
    scrapeUrl_accepted [of E W _ _ url]
  by blast

lemma statuses_failedUpTo: "map status (layers (failedUpTo 8)) = replicate 8 Failed"
  by code_simp

lemma statuses_succeededAt_all:
  "map (\<lambda>k. map status (layers (succeededAt k))) [0..<8] =
   map (\<lambda>k. replicate k Failed @ [Success] @ replicate (7 - k) Pending) [0..<8]"
  by code_simp

lemma statuses_succeededAt:
  assumes "k < 8"
  shows "map status (layers (succeededAt k)) = replicate k Failed @ [Success] @ replicate (7 - k) Pending"
proof -
  from assms have "k \<in> set [0..<8]" by simp
  have "(map (\<lambda>k. map status (layers (succeededAt k))) [0..<8]) ! k =
      (map (\<lambda>k. replicate k Failed @ [Success] @ replicate (7 - k) Pending) [0..<8]) ! k"
    by (simp only: statuses_succeededAt_all)
  with assms show ?thesis by (simp del: upt_Suc replicate.simps)
qed

lemma one_success_shape:
  fixes a b :: nat
  defines "st \<equiv> replicate a Failed @ [Success] @ replicate b Pending"
  shows "length (filter (\<lambda>s. s = Success) st) \<le> 1"
    and "\<forall>i < length st. st ! i = Success \<longrightarrow>
          (\<forall>j < i. st ! j = Failed) \<and> (\<forall>j < length st. i < j \<longrightarrow> st ! j = Pending)"
proof -
  show "length (filter (\<lambda>s. s = Success) st) \<le> 1" by (simp add: st_def)
  have i: "i = a" if "i < length st" "st ! i = Success" for i
    using that by (auto simp: st_def nth_append nth_Cons split: if_splits nat.splits)
  show "\<forall>i < length st. st ! i = Success \<longrightarrow>
          (\<forall>j < i. st ! j = Failed) \<and> (\<forall>j < length st. i < j \<longrightarrow> st ! j = Pending)"
  proof (intro allI impI)
    fix i assume "i < length st" "st ! i = Success"
    then have "i = a" by (rule i)
    then show "(\<forall>j < i. st ! j = Failed) \<and> (\<forall>j < length st. i < j \<longrightarrow> st ! j = Pending)"
      by (auto simp: st_def nth_append nth_Cons split: nat.splits)
  qed
qed

subsection \<open>The example runs\<close>

lemma matchRest_Ch_first: "\<forall>c \<in> set s. \<not> p c \<Longrightarrow> matchRest (Ch p # r) s = None"
  by (cases s) auto

lemma test_Ch_first: "\<forall>c \<in> set s. \<not> p c \<Longrightarrow> \<not> test (Ch p # r) s"
  by (induction s) (auto simp: matchRest_Ch_first)

lemma includesStr_first: "d \<notin> set s \<Longrightarrow> \<not> includesStr s (d # ds)"
  by (induction s) auto

lemma replaceFirst_Ch_first:
  "\<forall>c \<in> set s. \<not> p c \<Longrightarrow> replaceFirstAtLineStart (Ch p # r) repl b s = s"
  by (induction s arbitrary: b) (auto simp: matchRest_Ch_first)

lemma set_article: "set article = set ''lorem ''"
  by (simp add: article_def)

lemma length_article: "length article = 300"
  by (simp add: article_def length_concat sum_list_replicate)

lemma trim_article: "length (trim article) = 299"
  by code_simp

lemma article_nonempty: "article \<noteq> []"
  using length_article by auto

lemma set_readerText: "set readerText = set '' lorem''"
  by (auto simp: readerText_def set_article)

lemma length_readerText: "length readerText = 301"
  by (simp add: readerText_def length_article)

lemma trim_readerText: "trim readerText = trim article"
  by (simp add: readerText_def trim_def isWhiteSpace_def)

lemma article_no_tag: "\<forall>c \<in> set article. \<not> asciiUpper c = asciiUpper CHR ''<''"
proof -
  have "list_all (\<lambda>c. \<not> asciiUpper c = asciiUpper CHR ''<'') ''lorem ''" by code_simp
  then show ?thesis by (simp only: set_article list_all_iff)
qed

lemma article_no_d: "\<forall>c \<in> set article. \<not> asciiUpper c = asciiUpper CHR ''d''"
proof -
  have "list_all (\<lambda>c. \<not> asciiUpper c = asciiUpper CHR ''d'') ''lorem ''" by code_simp
  then show ?thesis by (simp only: set_article list_all_iff)
qed

lemma article_not_shell: "\<not> isSpaShell plainEnv article"
  using test_Ch_first [OF article_no_tag] test_Ch_first [OF article_no_d]
  by (simp add: isSpaShell_def plainEnv_def trim_article spaPatterns_def emptyRootDiv_def
      dataPage_def literalIgnoreCase_def)

lemma readerText_lower: "set (toLowerCase readerText) = set '' lorem''"
proof -
  have "map toLowerCaseUnit '' lorem'' = '' lorem''" by code_simp
  then have "toLowerCaseUnit ` set '' lorem'' = set '' lorem''"
    by (metis set_map)
  then show ?thesis by (simp only: toLowerCase_def set_map set_readerText)
qed

lemma readerText_not_error: "\<not> isJinaError readerText"
proof -
  have "\<forall>c \<in> set readerText. \<not> c = CHR ''#''"
    by (simp add: set_readerText)
  then have "replaceFirstAtLineStart titleHeader [] True readerText = readerText"
    unfolding titleHeader_def by (rule replaceFirst_Ch_first)
  moreover have "readerText \<noteq> []" "\<not> length readerText < 100"
    using length_readerText by auto
  moreover have "\<not> includesStr (toLowerCase readerText) ''warning: target url returned error''"
    "\<not> includesStr (toLowerCase readerText) ''captcha''"
    "\<not> includesStr (toLowerCase readerText) ''403: forbidden''"
    "\<not> includesStr (toLowerCase readerText) ''access denied''"
    by (rule includesStr_first, simp add: readerText_lower)+
  moreover have "\<not> length (trim readerText) < 100"
    by (simp add: trim_readerText trim_article)
  ultimately show ?thesis
    by (simp only: isJinaError_def Let_def if_False simp_thms)
qed

lemma candidates_scenarioB:
  "candidates plainEnv scenarioB = [None, None, Some article, None, None, None, None, None]"
  by (simp add: candidates_def scenarioB_def offline_def layer1_def layer2_def layer3_def
      layer4_def layer5_def layer6_def layer7_def layer8_def article_not_shell length_article
      article_nonempty)

lemma candidates_readerWorld:
  "candidates plainEnv readerWorld =
     [None, None, None, Some readerText, None, None, None, None]"
  by (simp add: candidates_def readerWorld_def offline_def layer1_def layer2_def layer3_def
      layer4_def layer5_def layer6_def layer7_def layer8_def readerText_not_error)

lemma candidates_offline:
  "candidates plainEnv offline = [None, None, None, None, None, None, None, None]"
  by (simp add: candidates_def offline_def layer1_def layer2_def layer3_def
      layer4_def layer5_def layer6_def layer7_def layer8_def)

lemma accepted_scenarioB: "firstAccepted plainEnv scenarioB 3 article"
  by (simp add: firstAccepted_def candidates_scenarioB eval_nat_numeral)

lemma accepted_readerWorld: "firstAccepted plainEnv readerWorld 4 readerText"
  by (simp add: firstAccepted_def candidates_readerWorld eval_nat_numeral)

lemma exhausted_offline: "\<forall>j < 8. candidates plainEnv offline ! j = None"
  by (simp add: candidates_offline nth_Cons split: nat.split)

section \<open>Progress of a run\<close>

text \<open>
  C2. When a run ends, at most one entry of the array of layer statuses is a success;
  every entry before the success is failed and every entry after it is pending; and when
  the run throws, having exhausted the eight strategies, every entry is failed.
\<close>

theorem final_statuses:
  "length (filter (\<lambda>s. s = Success) (finalStatuses E W url)) \<le> 1 \<and>
   (\<forall>i < length (finalStatuses E W url). finalStatuses E W url ! i = Success \<longrightarrow>
      (\<forall>j < i. finalStatuses E W url ! j = Failed) \<and>
      (\<forall>j < length (finalStatuses E W url). i < j \<longrightarrow> finalStatuses E W url ! j = Pending)) \<and>
   (isl (fst (scrapeUrl E W url)) \<longrightarrow> (\<forall>s \<in> set (finalStatuses E W url). s = Failed))"
proof (cases rule: scrapeUrl_cases [of E W url])
  case exhausted
  then have "finalStatuses E W url = replicate 8 Failed"
    by (simp add: finalStatuses_def statuses_failedUpTo)
  then show ?thesis by simp
next
  case (accepted k c)
  then have "k - 1 < 8" by (auto simp: firstAccepted_iff)
  with accepted have st: "finalStatuses E W url =
      replicate (k - 1) Failed @ [Success] @ replicate (7 - (k - 1)) Pending"
    by (simp add: finalStatuses_def statuses_succeededAt)
  from accepted have "\<not> isl (fst (scrapeUrl E W url))" by simp
  with one_success_shape [of "k - 1" "7 - (k - 1)"] show ?thesis
    unfolding st by blast
qed


theorem final_statuses_witness:
  "finalStatuses plainEnv scenarioB exampleUrl ! 2 = Success \<and>
   finalStatuses plainEnv scenarioB exampleUrl ! 0 = Failed \<and>
   finalStatuses plainEnv scenarioB exampleUrl ! 1 = Failed \<and>
   finalStatuses plainEnv scenarioB exampleUrl ! 3 = Pending \<and>
   finalStatuses plainEnv scenarioB exampleUrl ! 7 = Pending \<and>
   isl (fst (scrapeUrl plainEnv offline exampleUrl)) \<and>
   list_all (\<lambda>s. s = Failed) (finalStatuses plainEnv offline exampleUrl)"
proof -
  let ?st = "finalStatuses plainEnv scenarioB exampleUrl"
  have st: "?st = [Failed, Failed, Success, Pending, Pending, Pending, Pending, Pending]"
    using scrapeUrl_accepted [OF accepted_scenarioB, of exampleUrl] statuses_succeededAt [of 2]
    by (simp add: finalStatuses_def eval_nat_numeral)
  then have s: "2 < length ?st" "?st ! 2 = Success" by simp_all
  from final_statuses [of plainEnv scenarioB exampleUrl] s
  have b: "\<forall>j < 2. ?st ! j = Failed" and a: "\<forall>j < length ?st. 2 < j \<longrightarrow> ?st ! j = Pending"
    by blast+
  from b have "?st ! 0 = Failed" "?st ! 1 = Failed" by simp_all
  moreover from a st have "?st ! 3 = Pending" "?st ! 7 = Pending" by simp_all
  moreover have i: "isl (fst (scrapeUrl plainEnv offline exampleUrl))"
    by (simp add: scrapeUrl_exhausted [OF exhausted_offline])
  moreover from final_statuses [of plainEnv offline exampleUrl] i
  have "list_all (\<lambda>s. s = Failed) (finalStatuses plainEnv offline exampleUrl)"
    by (simp add: list_all_iff)
  ultimately show ?thesis using s by simp
qed

lemma run_in_finalRuns: "snd (scrapeUrl E W url) \<in> set finalRuns"
proof (cases rule: scrapeUrl_cases [of E W url])
  case exhausted
  then show ?thesis by (simp add: finalRuns_def)
next
  case (accepted k c)
  then have "k - 1 < 8" by (auto simp: firstAccepted_iff)
  with accepted show ?thesis by (simp add: finalRuns_def del: upt_Suc)
qed

lemma finalRuns_no_trying:
  "list_all (\<lambda>p. list_all (\<lambda>l. status l \<noteq> Trying) (layers p)) finalRuns"
  by code_simp

lemma finalRuns_histories:
  "list_all (\<lambda>p. list_all (\<lambda>i. history i p \<in>
      set [[Pending], [Pending, Trying, Success], [Pending, Trying, Failed]]) [0..<8]) finalRuns"
  by code_simp

lemma finalRuns_sequential:
  "list_all (\<lambda>p. list_all (\<lambda>snapshot. list_all (\<lambda>j. status (snapshot ! j) = Pending \<or>
      list_all (\<lambda>i. status (snapshot ! i) \<in> set [Success, Failed]) [0..<j]) [0..<8])
        (emitted p)) finalRuns"
  by code_simp

text \<open>
  C10. When a run returns or throws, no layer is left trying. Through the snapshots of a
  run the status of each layer only moves from pending to trying and from trying to
  success or to failed, each move at most once; and in every snapshot, a layer that is no
  longer pending has all earlier layers in a final state: a layer that was tried ends
  before the next one is attempted.
\<close>

theorem layer_transitions:
  "(\<forall>l \<in> set (layers (snd (scrapeUrl E W url))). status l \<noteq> Trying) \<and>
   (\<forall>i < 8. history i (snd (scrapeUrl E W url)) \<in>
      {[Pending], [Pending, Trying, Success], [Pending, Trying, Failed]}) \<and>
   (\<forall>snapshot \<in> set (emitted (snd (scrapeUrl E W url))). \<forall>j < 8.
      status (snapshot ! j) \<noteq> Pending \<longrightarrow>
      (\<forall>i < j. status (snapshot ! i) \<in> {Success, Failed}))"
proof -
  let ?p = "snd (scrapeUrl E W url)"
  have p: "?p \<in> set finalRuns" by (rule run_in_finalRuns)
  from finalRuns_no_trying p have "\<forall>l \<in> set (layers ?p). status l \<noteq> Trying"
    by (simp only: list_all_iff) blast
  moreover from finalRuns_histories p have "\<forall>i < 8. history i ?p \<in>
      {[Pending], [Pending, Trying, Success], [Pending, Trying, Failed]}"
    by (simp only: list_all_iff) auto
  moreover have "\<forall>snapshot \<in> set (emitted ?p). \<forall>j < 8.
      status (snapshot ! j) \<noteq> Pending \<longrightarrow>
      (\<forall>i < j. status (snapshot ! i) \<in> {Success, Failed})"
  proof (intro ballI allI impI)
    fix snapshot j i
    assume s: "snapshot \<in> set (emitted ?p)" and j: "j < 8"
      and n: "status (snapshot ! j) \<noteq> Pending" and i: "i < j"
    from finalRuns_sequential p s have "list_all (\<lambda>j. status (snapshot ! j) = Pending \<or>
        list_all (\<lambda>i. status (snapshot ! i) \<in> set [Success, Failed]) [0..<j]) [0..<8]"
      by (simp only: list_all_iff) blast
    with j n have "list_all (\<lambda>i. status (snapshot ! i) \<in> set [Success, Failed]) [0..<j]"
      by (simp only: list_all_iff set_upt) auto
    with i show "status (snapshot ! i) \<in> {Success, Failed}"
      by (simp only: list_all_iff set_upt) auto
  qed
  ultimately show ?thesis by blast
qed

lemma scenarioB_histories:
  "history 2 (succeededAt 2) = [Pending, Trying, Success] \<and>
   history 0 (succeededAt 2) = [Pending, Trying, Failed] \<and>
   history 3 (succeededAt 2) = [Pending] \<and>
   last (emitted (succeededAt 2)) \<in> set (emitted (succeededAt 2)) \<and>
   status (last (emitted (succeededAt 2)) ! 2) \<noteq> Pending"
  by code_simp

theorem layer_transitions_witness:
  "history 2 (snd (scrapeUrl plainEnv scenarioB exampleUrl)) = [Pending, Trying, Success] \<and>
   history 0 (snd (scrapeUrl plainEnv scenarioB exampleUrl)) = [Pending, Trying, Failed] \<and>
   history 3 (snd (scrapeUrl plainEnv scenarioB exampleUrl)) = [Pending] \<and>
   last (emitted (snd (scrapeUrl plainEnv scenarioB exampleUrl))) \<in>
     set (emitted (snd (scrapeUrl plainEnv scenarioB exampleUrl))) \<and>
   status (last (emitted (snd (scrapeUrl plainEnv scenarioB exampleUrl))) ! 2) \<noteq> Pending \<and>
   status (last (emitted (snd (scrapeUrl plainEnv scenarioB exampleUrl))) ! 1) \<in> {Success, Failed}"
proof -
  let ?p = "snd (scrapeUrl plainEnv scenarioB exampleUrl)"
  let ?s = "last (emitted ?p)"
  have p: "?p = succeededAt 2"
    using scrapeUrl_accepted [OF accepted_scenarioB, of exampleUrl]
    by (simp add: eval_nat_numeral)
  from scenarioB_histories have h: "history 2 ?p = [Pending, Trying, Success]"
      "history 0 ?p = [Pending, Trying, Failed]" "history 3 ?p = [Pending]"
    and m: "?s \<in> set (emitted ?p)" and n: "status (?s ! 2) \<noteq> Pending"
    unfolding p by blast+
  note t = layer_transitions [of plainEnv scenarioB exampleUrl, THEN conjunct2, THEN conjunct2]
  from t m have "\<forall>j < 8. status (?s ! j) \<noteq> Pending \<longrightarrow>
      (\<forall>i < j. status (?s ! i) \<in> {Success, Failed})"
    by (rule bspec)
  then have "(2 :: nat) < 8 \<longrightarrow> status (?s ! 2) \<noteq> Pending \<longrightarrow>
      (\<forall>i < 2. status (?s ! i) \<in> {Success, Failed})"
    by (rule spec)
  with n have "\<forall>i < 2. status (?s ! i) \<in> {Success, Failed}"
    by simp
  then have "(1 :: nat) < 2 \<longrightarrow> status (?s ! 1) \<in> {Success, Failed}"
    by (rule spec)
  then have "status (?s ! 1) \<in> {Success, Failed}"
    by simp
  with h m n show ?thesis by blast
qed

lemma finalRuns_callbacks:
  "list_all (\<lambda>k. length (emitted (succeededAt k)) = 2 * Suc k \<and>
      list_all (\<lambda>snapshot. list_all (\<lambda>j. status (snapshot ! j) = Pending) [Suc k..<8])
        (emitted (succeededAt k))) [0..<8]"
  by code_simp

lemma callbacks_up_to_accepted:
  assumes "firstAccepted E W k c"
  shows "length (emitted (snd (scrapeUrl E W url))) = 2 * k \<and>
     (\<forall>snapshot \<in> set (emitted (snd (scrapeUrl E W url))).
        \<forall>j < 8. k \<le> j \<longrightarrow> status (snapshot ! j) = Pending)"
proof -
  from assms have k: "1 \<le> k" "k - 1 < 8" by (auto simp: firstAccepted_iff)
  from scrapeUrl_accepted [OF assms, of url]
  have p: "snd (scrapeUrl E W url) = succeededAt (k - 1)" by simp
  from finalRuns_callbacks k(2)
  have f: "length (emitted (succeededAt (k - 1))) = 2 * Suc (k - 1) \<and>
      list_all (\<lambda>snapshot. list_all (\<lambda>j. status (snapshot ! j) = Pending) [Suc (k - 1)..<8])
        (emitted (succeededAt (k - 1)))"
    by (simp only: list_all_iff set_upt) auto
  from k(1) have s: "Suc (k - 1) = k" by simp
  from f show ?thesis
    unfolding p s by (simp only: list_all_iff set_upt) auto
qed

section \<open>Outcome of a run\<close>

lemma transport_failure_rejected:
  assumes "k \<in> {1, 2, 3, 4, 5, 6, 7, 8}" and "transportFailed W k"
  shows "candidates E W ! (k - 1) = None"
  using assms
  by (elim insertE emptyE)
    (auto simp: transportFailed_def candidates_def layer1_def layer2_def layer3_def layer4_def
      layer5_def layer6_def layer7_def layer8_def split: fetched.splits option.splits if_splits)

lemma finalRuns_next_tried:
  "list_all (\<lambda>k. list_all (\<lambda>p. list_ex (\<lambda>snapshot. status (snapshot ! k) = Trying) (emitted p))
      (failedUpTo 8 # map succeededAt [k..<8])) [0..<8]"
  by code_simp

lemma validator_rejection:
  assumes "k \<in> {1, 2, 3, 4, 5, 6, 7, 8}" and "rejected E W k"
  shows "candidates E W ! (k - 1) = None"
  using assms
  by (elim insertE emptyE)
    (auto simp: rejected_def payload_def minimumLength_def candidates_def layer1_def layer2_def
      layer3_def layer4_def layer5_def layer6_def layer7_def layer8_def
      split: fetched.splits option.splits if_splits)

lemma next_layer_tried:
  assumes "k \<in> {1..7}" and "list_all (\<lambda>c. c = None) (take k (candidates E W))"
  shows "\<exists>snapshot \<in> set (emitted (snd (scrapeUrl E W url))). status (snapshot ! k) = Trying"
proof -
  from assms(1) have k: "k < 8" by simp
  have len: "length (candidates E W) = 8" by (simp add: candidates_def)
  from finalRuns_next_tried k
  have t: "list_all (\<lambda>p. list_ex (\<lambda>snapshot. status (snapshot ! k) = Trying) (emitted p))
      (failedUpTo 8 # map succeededAt [k..<8])"
    by (simp only: list_all_iff set_upt) auto
  have "snd (scrapeUrl E W url) \<in> set (failedUpTo 8 # map succeededAt [k..<8])"
  proof (cases rule: scrapeUrl_cases [of E W url])
    case exhausted
    then show ?thesis by simp
  next
    case (accepted k' c)
    then have b: "k' - 1 < 8" and s: "candidates E W ! (k' - 1) = Some c"
      by (auto simp: firstAccepted_iff)
    have "k \<le> k' - 1"
    proof (rule ccontr)
      assume "\<not> k \<le> k' - 1"
      then have "k' - 1 < k" by simp
      with len k have "take k (candidates E W) ! (k' - 1) \<in> set (take k (candidates E W))"
        by (intro nth_mem) simp
      with assms(2) have "take k (candidates E W) ! (k' - 1) = None"
        by (simp only: list_all_iff)
      with \<open>k' - 1 < k\<close> have "candidates E W ! (k' - 1) = None" by simp
      with s show False by simp
    qed
    with b accepted show ?thesis by (simp del: upt_Suc)
  qed
  with t show ?thesis by (simp only: list_all_iff list_ex_iff)
qed

text \<open>
  C4. A run either returns one result or throws the one exhaustion error, whose message
  says that all layers failed, and it throws exactly when no strategy accepts a
  candidate. The failure of one strategy (a thrown error, a timeout, a status that is not
  ok, a rejection by a validator) leaves that strategy without a candidate and is not
  thrown to the caller; and whenever the first \<open>k\<close> strategies have failed, the next one is
  set to trying.
\<close>

theorem run_outcome:
  "((fst (scrapeUrl E W url) = Inl (Error ''All layers failed'') \<and>
     list_all (\<lambda>c. c = None) (candidates E W)) \<or>
    (\<exists>k c. firstAccepted E W k c \<and>
       fst (scrapeUrl E W url) = Inr (makeResult (rendered E W url k c)))) \<and>
   (\<forall>k \<in> {1..8}. transportFailed W k \<or> rejected E W k \<longrightarrow> candidates E W ! (k - 1) = None) \<and>
   (\<forall>k \<in> {1..7}. list_all (\<lambda>c. c = None) (take k (candidates E W)) \<longrightarrow>
      (\<exists>snapshot \<in> set (emitted (snd (scrapeUrl E W url))). status (snapshot ! k) = Trying))"
proof (intro conjI ballI impI)
  show "(fst (scrapeUrl E W url) = Inl (Error ''All layers failed'') \<and>
     list_all (\<lambda>c. c = None) (candidates E W)) \<or>
    (\<exists>k c. firstAccepted E W k c \<and>
       fst (scrapeUrl E W url) = Inr (makeResult (rendered E W url k c)))"
  proof (cases rule: scrapeUrl_cases [of E W url])
    case exhausted
    have "length (candidates E W) = 8" by (simp add: candidates_def)
    with exhausted(1) have "list_all (\<lambda>c. c = None) (candidates E W)"
      by (auto simp: list_all_iff in_set_conv_nth)
    with exhausted(2) show ?thesis by simp
  next
    case (accepted k c)
    then have "firstAccepted E W k c \<and>
        fst (scrapeUrl E W url) = Inr (makeResult (rendered E W url k c))"
      by simp
    then show ?thesis by blast
  qed
next
  fix k :: nat
  assume "k \<in> {1..8}" and f: "transportFailed W k \<or> rejected E W k"
  then have "1 \<le> k" "k \<le> 8" by simp_all
  then have "k = 1 \<or> k = 2 \<or> k = 3 \<or> k = 4 \<or> k = 5 \<or> k = 6 \<or> k = 7 \<or> k = 8" by arith
  then have k: "k \<in> {1, 2, 3, 4, 5, 6, 7, 8}" by simp
  from f show "candidates E W ! (k - 1) = None"
  proof
    assume "transportFailed W k"
    with k show ?thesis by (rule transport_failure_rejected)
  next
    assume "rejected E W k"
    with k show ?thesis by (rule validator_rejection)
  qed
next
  fix k :: nat
  assume "k \<in> {1..7}" and "list_all (\<lambda>c. c = None) (take k (candidates E W))"
  then show "\<exists>snapshot \<in> set (emitted (snd (scrapeUrl E W url))). status (snapshot ! k) = Trying"
    by (rule next_layer_tried)
qed

theorem run_outcome_witness:
  "transportFailed scenarioB 1 \<and> candidates plainEnv scenarioB ! 0 = None \<and>
   rejected plainEnv scenarioB 2 \<and> candidates plainEnv scenarioB ! 1 = None \<and>
   list_all (\<lambda>c. c = None) (take 2 (candidates plainEnv scenarioB)) \<and>
   list_ex (\<lambda>snapshot. status (snapshot ! 2) = Trying)
     (emitted (snd (scrapeUrl plainEnv scenarioB exampleUrl))) \<and>
   fst (scrapeUrl plainEnv offline exampleUrl) = Inl (Error ''All layers failed'')"
proof -
  note r = run_outcome [of plainEnv scenarioB exampleUrl]
  have t: "transportFailed scenarioB 1"
    by (simp add: transportFailed_def scenarioB_def offline_def)
  have j: "rejected plainEnv scenarioB 2"
    by (simp add: rejected_def payload_def minimumLength_def scenarioB_def offline_def)
  from r t have "candidates plainEnv scenarioB ! (1 - 1) = None" by fastforce
  moreover from r j have "candidates plainEnv scenarioB ! (2 - 1) = None" by fastforce
  moreover have n: "list_all (\<lambda>c. c = None) (take 2 (candidates plainEnv scenarioB))"
    by (simp add: candidates_scenarioB eval_nat_numeral)
  moreover from r n have "\<exists>snapshot \<in> set (emitted (snd (scrapeUrl plainEnv scenarioB exampleUrl))).
      status (snapshot ! 2) = Trying"
    by fastforce
  moreover from run_outcome [of plainEnv offline exampleUrl]
  have "fst (scrapeUrl plainEnv offline exampleUrl) = Inl (Error ''All layers failed'')"
    by (simp add: scrapeUrl_exhausted [OF exhausted_offline])
  ultimately show ?thesis using t j by (simp add: list_ex_iff)
qed

section \<open>The result\<close>

lemma header_lines:
  "header url stamp k @ b =
     joinLines [''---'', ''source: '' @ url, ''scraped: '' @ stamp,
       ''layers_tried: '' @ digitsOf k, ''---'', [], b]"
  by (simp add: header_def)

lemma rendered_shape:
  "\<exists>b. rendered E W url k c = header url (toISOString W) k @ b \<and>
     (k = 4 \<longrightarrow> b = trim c) \<and>
     (k \<noteq> 4 \<longrightarrow> (\<exists>raw. b = collapseBlankLines (turndown E raw)))"
  by (auto simp: rendered_def buildJinaMarkdown_def cleanHtmlToMarkdown_def Let_def)

text \<open>
  C5. The Markdown of every result is a line \<^verbatim>\<open>---\<close>, a line \<^verbatim>\<open>source: \<close> with the
  address given to the pipeline, a line \<^verbatim>\<open>scraped: \<close> with the time stamp of
  \<^verbatim>\<open>toISOString\<close>, a line \<^verbatim>\<open>layers_tried: \<close> with the number of the first strategy
  that accepted a candidate, a line \<^verbatim>\<open>---\<close>, an empty line and the body. For strategy 4
  the body is the accepted text, trimmed; for the others it is the collapsed output of
  the HTML converter.
\<close>

theorem provenance_header:
  assumes "fst (scrapeUrl E W url) = Inr r"
  shows "\<exists>k c b. firstAccepted E W k c \<and>
     markdown r =
       joinLines [''---'', ''source: '' @ url, ''scraped: '' @ toISOString W,
         ''layers_tried: '' @ digitsOf k, ''---'', [], b] \<and>
     (k = 4 \<longrightarrow> b = trim c) \<and>
     (k \<noteq> 4 \<longrightarrow> (\<exists>raw. b = collapseBlankLines (turndown E raw)))"
proof (cases rule: scrapeUrl_cases [of E W url])
  case exhausted
  with assms show ?thesis by simp
next
  case (accepted k c)
  with assms have r: "markdown r = rendered E W url k c"
    by (auto simp: makeResult_markdown)
  from rendered_shape [of E W url k c] obtain b
    where h: "rendered E W url k c = header url (toISOString W) k @ b"
      and t: "k = 4 \<longrightarrow> b = trim c"
      and n: "k \<noteq> 4 \<longrightarrow> (\<exists>raw. b = collapseBlankLines (turndown E raw))"
    by blast
  from r h have m: "markdown r =
      joinLines [''---'', ''source: '' @ url, ''scraped: '' @ toISOString W,
        ''layers_tried: '' @ digitsOf k, ''---'', [], b]"
    by (simp only: header_lines)
  from accepted(1) m t n show ?thesis
    by (intro exI [of _ k] exI [of _ c] exI [of _ b] conjI)
qed

lemma digitsOf_4: "digitsOf 4 = ''4''"
  by code_simp

lemma trimmed_readerText: "trim readerText = concat (replicate 49 ''lorem '') @ ''lorem''"
  by code_simp

theorem provenance_header_witness:
  "fst (scrapeUrl plainEnv readerWorld exampleUrl) =
     Inr (makeResult (rendered plainEnv readerWorld exampleUrl 4 readerText)) \<and>
   markdown (makeResult (rendered plainEnv readerWorld exampleUrl 4 readerText)) =
     joinLines [''---'', ''source: https://example.com/a'', ''scraped: 2024-05-01T12:00:00.000Z'',
       ''layers_tried: 4'', ''---'', [], concat (replicate 49 ''lorem '') @ ''lorem'']"
proof -
  let ?r = "makeResult (rendered plainEnv readerWorld exampleUrl 4 readerText)"
  have e: "fst (scrapeUrl plainEnv readerWorld exampleUrl) = Inr ?r"
    by (simp add: scrapeUrl_accepted [OF accepted_readerWorld])
  from provenance_header [OF e] obtain k c b
    where a: "firstAccepted plainEnv readerWorld k c"
      and m: "markdown ?r =
        joinLines [''---'', ''source: '' @ exampleUrl, ''scraped: '' @ toISOString readerWorld,
          ''layers_tried: '' @ digitsOf k, ''---'', [], b]"
      and b: "k = 4 \<longrightarrow> b = trim c"
    by blast
  from firstAccepted_unique [OF a accepted_readerWorld] have "k = 4" "c = readerText"
    by simp_all
  with b have "b = trim readerText" by simp
  with m \<open>k = 4\<close> have "markdown ?r =
      joinLines [''---'', ''source: '' @ exampleUrl, ''scraped: '' @ toISOString readerWorld,
        ''layers_tried: '' @ digitsOf 4, ''---'', [], trim readerText]"
    by simp
  then have "markdown ?r =
      joinLines [''---'', ''source: https://example.com/a'', ''scraped: 2024-05-01T12:00:00.000Z'',
        ''layers_tried: 4'', ''---'', [], concat (replicate 49 ''lorem '') @ ''lorem'']"
    by (simp only: digitsOf_4 trimmed_readerText exampleUrl_def readerWorld_def offline_def
        world.simps append.simps)
  with e show ?thesis by (rule conjI)
qed

lemma result_is_made:
  assumes "fst (scrapeUrl E W url) = Inr r"
  shows "\<exists>md. r = makeResult md"
proof (cases rule: scrapeUrl_cases [of E W url])
  case exhausted
  with assms show ?thesis by simp
next
  case (accepted k c)
  with assms show ?thesis by auto
qed

text \<open>
  C3. In every result, \<^verbatim>\<open>wordCount\<close> is the number of white-space-delimited tokens of
  the returned Markdown, header included, and \<^verbatim>\<open>readTime\<close> is the ceiling of
  \<^verbatim>\<open>wordCount\<close> divided by 200: at least 1 when there is a word, 0 when there is none.
\<close>

theorem result_statistics:
  assumes "fst (scrapeUrl E W url) = Inr r"
  shows "wordCount r = length (whitespaceTokens (markdown r)) \<and>
     readTime r = nat \<lceil>real (wordCount r) / 200\<rceil> \<and>
     (0 < wordCount r \<longrightarrow> 1 \<le> readTime r) \<and>
     (wordCount r = 0 \<longrightarrow> readTime r = 0)"
proof -
  from result_is_made [OF assms] obtain md where r: "r = makeResult md" ..
  have w: "wordCount r = length (whitespaceTokens (markdown r))"
    by (simp add: r makeResult_wordCount makeResult_markdown)
  have t: "readTime r = nat \<lceil>real (wordCount r) / 200\<rceil>"
    unfolding r by (rule makeResult_readTime)
  then have d: "readTime r = (wordCount r + 199) div 200"
    by (simp only: ceiling_div_200)
  from d have "0 < wordCount r \<longrightarrow> 1 \<le> readTime r" by arith
  moreover from d have "wordCount r = 0 \<longrightarrow> readTime r = 0" by arith
  ultimately show ?thesis using w t by blast
qed

lemma readerWorld_wordCount:
  "wordCount (makeResult (rendered plainEnv readerWorld exampleUrl 4 readerText)) = 58"
  by code_simp

theorem result_statistics_witness:
  "fst (scrapeUrl plainEnv readerWorld exampleUrl) =
     Inr (makeResult (rendered plainEnv readerWorld exampleUrl 4 readerText)) \<and>
   length (whitespaceTokens
     (markdown (makeResult (rendered plainEnv readerWorld exampleUrl 4 readerText)))) = 58 \<and>
   wordCount (makeResult (rendered plainEnv readerWorld exampleUrl 4 readerText)) = 58 \<and>
   readTime (makeResult (rendered plainEnv readerWorld exampleUrl 4 readerText)) = 1"
proof -
  let ?r = "makeResult (rendered plainEnv readerWorld exampleUrl 4 readerText)"
  have e: "fst (scrapeUrl plainEnv readerWorld exampleUrl) = Inr ?r"
    by (simp add: scrapeUrl_accepted [OF accepted_readerWorld])
  note s = result_statistics [OF e]
  from s readerWorld_wordCount have "length (whitespaceTokens (markdown ?r)) = 58" by simp
  moreover from s readerWorld_wordCount have "readTime ?r = 1" by simp
  ultimately show ?thesis using e readerWorld_wordCount by blast
qed

lemma layersTriedCount_always_zero:
  assumes "fst (scrapeUrl E W url) = Inr r"
  shows "layersTriedCount r = 0"
proof -
  from result_is_made [OF assms] obtain md where "r = makeResult md" ..
  then show ?thesis by (simp add: makeResult_layersTriedCount)
qed

text \<open>
  C1. In the run of scenario B the third strategy is the first to accept a candidate,
  and the field \<^verbatim>\<open>layersTriedCount\<close> of the result is 0, not 3: \<^verbatim>\<open>makeResult\<close> sets it
  to the constant 0 in every result. The header line \<^verbatim>\<open>layers_tried\<close> carries the
  number (\<open>provenance_header\<close>) and the callback sees no layer after it
  (\<open>callbacks_up_to_accepted\<close>).
\<close>

theorem layersTriedCount_not_reported:
  "firstAccepted plainEnv scenarioB 3 article \<and>
   (\<exists>r. fst (scrapeUrl plainEnv scenarioB exampleUrl) = Inr r \<and> layersTriedCount r = 0)"
proof -
  have "fst (scrapeUrl plainEnv scenarioB exampleUrl) =
      Inr (makeResult (rendered plainEnv scenarioB exampleUrl 3 article))"
    by (simp add: scrapeUrl_accepted [OF accepted_scenarioB])
  moreover have "layersTriedCount (makeResult (rendered plainEnv scenarioB exampleUrl 3 article)) = 0"
    by (rule makeResult_layersTriedCount)
  ultimately show ?thesis using accepted_scenarioB by blast
qed

section \<open>Validators\<close>

text \<open>
  C7. For every strategy of HTML origin, a page whose length is exactly the minimum of
  the strategy (200 for strategies 1 to 3, 300 for strategies 5 to 8) is rejected, and a
  page one character longer is accepted when it is not an application shell.
\<close>

theorem minimum_length_boundary:
  assumes "k \<in> {1, 2, 3, 5, 6, 7, 8}" and "payload W k = Some c"
  shows "(length c = minimumLength k \<longrightarrow> candidates E W ! (k - 1) = None) \<and>
     (length c = minimumLength k + 1 \<and> \<not> isSpaShell E c \<longrightarrow> candidates E W ! (k - 1) = Some c)"
  using assms
  by (elim insertE emptyE)
    (auto simp: payload_def minimumLength_def candidates_def layer1_def layer2_def
      layer3_def layer5_def layer6_def layer7_def layer8_def
      split: fetched.splits option.splits if_splits)

lemma overPage_not_shell: "\<not> isSpaShell plainEnv overPage"
proof -
  have s: "set overPage = set ''lorem !''" by (auto simp: overPage_def set_article)
  have "list_all (\<lambda>c. \<not> asciiUpper c = asciiUpper CHR ''<'') ''lorem !''" by code_simp
  then have t: "\<forall>c \<in> set overPage. \<not> asciiUpper c = asciiUpper CHR ''<''"
    by (simp only: s list_all_iff)
  have "list_all (\<lambda>c. \<not> asciiUpper c = asciiUpper CHR ''d'') ''lorem !''" by code_simp
  then have d: "\<forall>c \<in> set overPage. \<not> asciiUpper c = asciiUpper CHR ''d''"
    by (simp only: s list_all_iff)
  have l: "length (trim overPage) = 301" by code_simp
  from test_Ch_first [OF t] test_Ch_first [OF d] show ?thesis
    by (simp add: isSpaShell_def plainEnv_def l spaPatterns_def emptyRootDiv_def
        dataPage_def literalIgnoreCase_def)
qed

theorem minimum_length_boundary_witness:
  "payload (boundaryWorld article) 5 = Some article \<and> length article = minimumLength 5 \<and>
   \<not> isSpaShell plainEnv article \<and> candidates plainEnv (boundaryWorld article) ! 4 = None \<and>
   payload (boundaryWorld overPage) 5 = Some overPage \<and> length overPage = minimumLength 5 + 1 \<and>
   \<not> isSpaShell plainEnv overPage \<and> candidates plainEnv (boundaryWorld overPage) ! 4 = Some overPage"
proof -
  have k: "(5 :: nat) \<in> {1, 2, 3, 5, 6, 7, 8}" by simp
  have p: "payload (boundaryWorld article) 5 = Some article"
    "payload (boundaryWorld overPage) 5 = Some overPage"
    by (simp_all add: payload_def boundaryWorld_def offline_def)
  have l: "length article = minimumLength 5" "length overPage = minimumLength 5 + 1"
    by (simp_all add: minimumLength_def length_article overPage_def)
  from minimum_length_boundary [OF k p(1), of plainEnv] l(1)
  have "candidates plainEnv (boundaryWorld article) ! 4 = None" by simp
  moreover from minimum_length_boundary [OF k p(2), of plainEnv] l(2) overPage_not_shell
  have "candidates plainEnv (boundaryWorld overPage) ! 4 = Some overPage" by simp
  ultimately show ?thesis using p l article_not_shell overPage_not_shell by blast
qed

end
